theory Spec2Isabelle
  imports Main "HOL-Library.Word"
begin

section \<open>The snapshot command of ironfish-cli\<close>

text \<open>
  A shallow embedding of \<^verbatim>\<open>ironfish-cli/src/commands/service/snapshot.ts\<close>: the
  methods \<^verbatim>\<open>start\<close>, \<^verbatim>\<open>zipDir\<close> and \<^verbatim>\<open>uploadToBucket\<close> of the class
  \<^verbatim>\<open>CreateSnapshot\<close>. The command is a sequence of awaited effects. Each effect
  is a function from the state of the world to a result and a new state; a rejected promise
  or a thrown exception is the result \<open>Inl e\<close>, after which nothing else runs. What the
  outside answers (the node's stream, the file system's failures, the clock, the exit of
  \<^verbatim>\<open>tar\<close> and \<^verbatim>\<open>curl\<close>) is given by a record \<open>env\<close>. Logging, the texts of
  \<^verbatim>\<open>CliUx.ux.action\<close> and the hint \<^verbatim>\<open>maxBlocksPerChunk\<close> sent to the node are left
  out; the progress bar is kept. Paths are POSIX paths.
\<close>

subsection \<open>Bytes, strings and paths\<close>

type_synonym byte = "8 word"
type_synonym bytes = "byte list"
type_synonym path = string

definition digit_char :: "nat \<Rightarrow> char" where
  "digit_char d = ''0123456789'' ! d"

text \<open>The template literal \<^verbatim>\<open>`${n}`\<close> of an integer: its decimal digits, with a sign.\<close>

fun show_nat :: "nat \<Rightarrow> string" where
  "show_nat n = (if n < 10 then [digit_char n] else show_nat (n div 10) @ [digit_char (n mod 10)])"

declare show_nat.simps [simp del]

definition show_int :: "int \<Rightarrow> string" where
  "show_int i = (if i < 0 then CHR ''-'' # show_nat (nat (- i)) else show_nat (nat i))"

text \<open>\<^verbatim>\<open>Buffer.toString('hex')\<close>: two lowercase hexadecimal digits for each byte.\<close>

definition hex_digit :: "nat \<Rightarrow> char" where
  "hex_digit d = ''0123456789abcdef'' ! d"

definition hex_byte :: "byte \<Rightarrow> string" where
  "hex_byte b = [hex_digit (unat b div 16), hex_digit (unat b mod 16)]"

definition to_hex :: "bytes \<Rightarrow> string" where
  "to_hex bs = concat (map hex_byte bs)"

text \<open>The bytes \<^verbatim>\<open>fs.writeFile\<close> stores for a string (of ASCII characters).\<close>

definition bytes_of :: "string \<Rightarrow> bytes" where
  "bytes_of s = map of_char s"

definition is_sep :: "char \<Rightarrow> bool" where
  "is_sep c \<longleftrightarrow> c = CHR ''/''"

text \<open>
  \<^verbatim>\<open>path.basename\<close> (POSIX): the trailing separators are dropped, then the part after
  the last separator is taken.
\<close>

definition basename :: "path \<Rightarrow> string" where
  "basename p = rev (takeWhile (\<lambda>c. \<not> is_sep c) (dropWhile is_sep (rev p)))"

text \<open>
  \<^verbatim>\<open>path.dirname\<close> (POSIX): scanning from the end down to index 1, past the trailing
  separators and the last component, \<open>end\<close> is the index of the separator before that
  component.
\<close>

definition dirname :: "path \<Rightarrow> string" where
  "dirname p =
     (case p of
        [] \<Rightarrow> ''.''
      | c # cs \<Rightarrow>
          (let hasRoot = is_sep c;
               end = length (dropWhile (\<lambda>c. \<not> is_sep c) (dropWhile is_sep (rev cs)))
           in if end = 0 then (if hasRoot then ''/'' else ''.'')
              else if hasRoot \<and> end = 1 then ''//''
              else take end p))"

text \<open>
  \<^verbatim>\<open>fileSystem.join\<close> and \<^verbatim>\<open>path.join\<close> of a directory and one name: the two
  joined by a separator (the normalisation of the result is not modelled).
\<close>

definition path_join :: "path \<Rightarrow> string \<Rightarrow> path" where
  "path_join dir name = dir @ ''/'' @ name"

definition is_space :: "char \<Rightarrow> bool" where
  "is_space c \<longleftrightarrow> c \<in> set [CHR '' '', CHR 0x09, CHR 0x0A, CHR 0x0B, CHR 0x0C, CHR 0x0D]"

text \<open>\<^verbatim>\<open>String.prototype.trim\<close>, on the ASCII white space.\<close>

definition trim :: "string \<Rightarrow> string" where
  "trim s = rev (dropWhile is_space (rev (dropWhile is_space s)))"

subsection \<open>Messages, outcomes, errors and events\<close>

text \<open>
  An element of \<^verbatim>\<open>response.contentStream()\<close>. The code reads \<^verbatim>\<open>start\<close> and
  \<^verbatim>\<open>stop\<close> of the first element and \<^verbatim>\<open>seq\<close> and \<^verbatim>\<open>buffer\<close> of the others; the
  last two may be absent. The declaration of the type is in the SDK; the spec gives the
  message as \<^verbatim>\<open>{sequence?: int, payload?: bytes}\<close>, and the code hands the payload to
  \<^verbatim>\<open>Buffer.from\<close>: a payload that is present is a buffer of bytes, of any length.
\<close>

record message =
  msg_start :: int
  msg_stop :: int
  msg_seq :: "int option"
  msg_buffer :: "bytes option"

text \<open>How the iteration of the stream ends after its last message.\<close>

datatype stream_end = StreamClosed | StreamThrows

text \<open>
  How the promise around a spawned process settles: resolved with the exit code
  (\<^verbatim>\<open>null\<close> when a signal ended the process), or rejected by the \<^verbatim>\<open>error\<close> event.
\<close>

datatype proc_outcome = Exited "int option" | SpawnFailed

datatype error =
    ExitError int
  | MkdirError path
  | ConnectError
  | NoValueError
  | StreamError
  | WriteError path
  | SpawnError string
  | StatError path
  | ReadError path

datatype event =
    Mkdir path
  | Recv message
  | ProgressStart int int
  | ProgressUpdate int
  | ProgressStop
  | WriteFile path bytes
  | Spawn string "string list"
  | Stat path
  | OpenRead path
  | ClockRead int

subsection \<open>The outside and the state\<close>

record env =
  flags_bucket :: "string option"
  env_bucket :: "string option"
  flags_path :: "string option"
  resolve :: "path \<Rightarrow> path"
  mkdtemp :: "path option"
  mkdir_ok :: bool
  connect_ok :: bool
  stream_msgs :: "message list"
  stream_end :: stream_end
  write_ok :: "path \<Rightarrow> bool"
  clock :: "nat \<Rightarrow> int"
  toISOString :: "int \<Rightarrow> string"
  tar_outcome :: proc_outcome
  tar_archive :: "bytes option"
  highWaterMark :: nat
  read_ok :: bool
  sha256 :: "bytes \<Rightarrow> bytes"
  curl_outcome :: "string list \<Rightarrow> proc_outcome"

text \<open>
  \<open>files\<close> is the content of every file; \<open>channel\<close> holds the messages of the response
  that no iterator has taken yet; \<open>clock_reads\<close> counts the readings of the clock, the
  \<open>k\<close>-th of which is \<open>clock env k\<close>; \<open>trace\<close> lists the effects in their order.
\<close>

record world =
  files :: "path \<rightharpoonup> bytes"
  channel :: "message list"
  clock_reads :: nat
  trace :: "event list"

type_synonym 'a io = "world \<Rightarrow> (error + 'a) \<times> world"

definition return :: "'a \<Rightarrow> 'a io" where
  "return x w = (Inr x, w)"

definition throw :: "error \<Rightarrow> 'a io" where
  "throw e w = (Inl e, w)"

definition and_then :: "'a io \<Rightarrow> ('a \<Rightarrow> 'b io) \<Rightarrow> 'b io" where
  "and_then m f w = (case m w of (Inl e, w') \<Rightarrow> (Inl e, w') | (Inr x, w') \<Rightarrow> f x w')"

definition emit :: "event \<Rightarrow> unit io" where
  "emit e w = (Inr (), w\<lparr>trace := trace w @ [e]\<rparr>)"

subsection \<open>The collaborators\<close>

definition mkdir :: "env \<Rightarrow> path \<Rightarrow> unit io" where
  "mkdir env p = (if mkdir_ok env then emit (Mkdir p) else throw (MkdirError p))"

definition connectRpc :: "env \<Rightarrow> unit io" where
  "connectRpc env = (if connect_ok env then return () else throw ConnectError)"

definition snapshotChainStream :: "env \<Rightarrow> unit io" where
  "snapshotChainStream env w = (Inr (), w\<lparr>channel := stream_msgs env\<rparr>)"

text \<open>
  Modelled from the spec: \<^verbatim>\<open>AsyncUtils.first\<close> and \<^verbatim>\<open>Response.contentStream\<close> of
  the SDK are not among the sources. The spec has the bounds message and the data messages
  travel over one continuous ordered channel, and the consumer read the first message and
  then the remainder of the same stream: an iterator made by \<^verbatim>\<open>contentStream()\<close>
  takes the messages of the channel that are not taken yet, and \<^verbatim>\<open>first\<close> takes one
  message and leaves the others in the channel (it throws when there is none).
\<close>

definition first :: "env \<Rightarrow> message io" where
  "first env w =
     (case channel w of
        [] \<Rightarrow> (if stream_end env = StreamThrows then throw StreamError w else throw NoValueError w)
      | m # ms \<Rightarrow> (Inr m, w\<lparr>channel := ms, trace := trace w @ [Recv m]\<rparr>))"

definition writeFile :: "env \<Rightarrow> path \<Rightarrow> bytes \<Rightarrow> unit io" where
  "writeFile env p content w =
     (if write_ok env p
      then (Inr (), w\<lparr>files := (files w)(p \<mapsto> content), trace := trace w @ [WriteFile p content]\<rparr>)
      else (Inl (WriteError p), w))"

definition date_now :: "env \<Rightarrow> int io" where
  "date_now env w =
     (let t = clock env (clock_reads w)
      in (Inr t, w\<lparr>clock_reads := Suc (clock_reads w), trace := trace w @ [ClockRead t]\<rparr>))"

definition stat_size :: "path \<Rightarrow> int io" where
  "stat_size p =
     and_then (emit (Stat p)) (\<lambda>_ w.
       case files w p of
         None \<Rightarrow> throw (StatError p) w
       | Some content \<Rightarrow> return (int (length content)) w)"

text \<open>
  The read stream of a file hands its content over in chunks of at most \<open>highWaterMark\<close>
  bytes (at least one byte each).
\<close>

fun chunks_of :: "nat \<Rightarrow> 'a list \<Rightarrow> 'a list list" where
  "chunks_of n [] = []"
| "chunks_of n (x # xs) = take (max 1 n) (x # xs) # chunks_of n (drop (max 1 n) (x # xs))"

definition createReadStream :: "env \<Rightarrow> path \<Rightarrow> (bytes list) io" where
  "createReadStream env p =
     and_then (emit (OpenRead p)) (\<lambda>_ w.
       case files w p of
         None \<Rightarrow> throw (ReadError p) w
       | Some content \<Rightarrow>
           (if read_ok env then return (chunks_of (highWaterMark env) content) w
            else throw (ReadError p) w))"

text \<open>
  The state of \<^verbatim>\<open>crypto.createHash('sha256')\<close> is the input it was given so far;
  the hash function itself is the parameter \<open>sha256 env\<close>.
\<close>

definition hasher_update :: "bytes \<Rightarrow> bytes \<Rightarrow> bytes" where
  "hasher_update hasher data = hasher @ data"

definition hasher_digest :: "env \<Rightarrow> bytes \<Rightarrow> bytes" where
  "hasher_digest env hasher = sha256 env hasher"

subsection \<open>zipDir and uploadToBucket\<close>

definition zipDir_args :: "path \<Rightarrow> path \<Rightarrow> string list \<Rightarrow> string list" where
  "zipDir_args source dest excludes =
     (let sourceDir = dirname source;
          sourceFile = basename source;
          args = [''-zcf'', dest, ''-C'', sourceDir, sourceFile]
      in foldl (\<lambda>args exclude. ''--exclude'' # exclude # args) args excludes)"

text \<open>
  The promise resolves with the exit code on \<^verbatim>\<open>exit\<close> or \<^verbatim>\<open>close\<close> and
  rejects on \<^verbatim>\<open>error\<close>. A \<^verbatim>\<open>tar\<close> that ran leaves \<open>tar_archive env\<close> at
  \<open>dest\<close> (nothing, when \<open>None\<close>).
\<close>

definition tar_writes :: "env \<Rightarrow> path \<Rightarrow> unit io" where
  "tar_writes env dest w =
     (Inr (), w\<lparr>files := (case tar_archive env of
                              None \<Rightarrow> files w
                            | Some content \<Rightarrow> (files w)(dest \<mapsto> content))\<rparr>)"

definition zipDir :: "env \<Rightarrow> path \<Rightarrow> path \<Rightarrow> string list \<Rightarrow> (int option) io" where
  "zipDir env source dest excludes =
     and_then (emit (Spawn ''tar'' (zipDir_args source dest excludes))) (\<lambda>_.
     case tar_outcome env of
       SpawnFailed \<Rightarrow> throw (SpawnError ''tar'')
     | Exited code \<Rightarrow> and_then (tar_writes env dest) (\<lambda>_. return code))"

definition uploadToBucket_args :: "string \<Rightarrow> path \<Rightarrow> string \<Rightarrow> string \<Rightarrow> string list" where
  "uploadToBucket_args date dest host contentType =
     (let file = basename dest;
          acl = ''bucket-owner-full-control''
      in [''-X'', ''PUT'', ''-T'', dest,
          ''-H'', ''Host: '' @ host,
          ''-H'', ''Date: '' @ date,
          ''-H'', ''Content-Type: '' @ contentType,
          ''-H'', ''x-amz-acl: '' @ acl,
          ''https://'' @ host @ ''/'' @ file])"

text \<open>The promise resolves with the exit code on \<^verbatim>\<open>exit\<close> and rejects on \<^verbatim>\<open>error\<close>.\<close>

definition uploadToBucket :: "env \<Rightarrow> path \<Rightarrow> string \<Rightarrow> string \<Rightarrow> (int option) io" where
  "uploadToBucket env dest host contentType =
     and_then (date_now env) (\<lambda>now.
     let date = toISOString env now;
         args = uploadToBucket_args date dest host contentType
     in and_then (emit (Spawn ''curl'' args)) (\<lambda>_.
        case curl_outcome env args of
          SpawnFailed \<Rightarrow> throw (SpawnError ''curl'')
        | Exited code \<Rightarrow> return code))"

subsection \<open>start\<close>

text \<open>Line 47: \<^verbatim>\<open>(flags.bucket || process.env.IRONFISH_SNAPSHOT_BUCKET || '').trim()\<close>.\<close>

definition truthy_string :: "string option \<Rightarrow> bool" where
  "truthy_string v \<longleftrightarrow> (case v of None \<Rightarrow> False | Some s \<Rightarrow> s \<noteq> [])"

definition bucket_of :: "env \<Rightarrow> string" where
  "bucket_of env =
     trim (if truthy_string (flags_bucket env) then the (flags_bucket env)
           else if truthy_string (env_bucket env) then the (env_bucket env)
           else [])"

text \<open>Lines 49 to 64: the export directory and its \<^verbatim>\<open>blocks\<close> directory.\<close>

definition prepare_dir :: "env \<Rightarrow> (path \<times> path) io" where
  "prepare_dir env =
     and_then
       (if truthy_string (flags_path env) then return (resolve env (the (flags_path env)))
        else (case mkdtemp env of
                Some dir \<Rightarrow> return dir
              | None \<Rightarrow> throw (ExitError 1)))
       (\<lambda>exportDir.
          let blockExportPath = path_join exportDir ''blocks''
          in and_then (mkdir env blockExportPath) (\<lambda>_. return (exportDir, blockExportPath)))"

text \<open>
  Lines 83 to 89, the body of the loop on one message and the loop. An object is truthy, so
  a payload that is present passes \<^verbatim>\<open>result.buffer && ...\<close> whatever its length; a
  number is truthy when it is not zero.
\<close>

definition truthy_buffer :: "bytes option \<Rightarrow> bool" where
  "truthy_buffer v \<longleftrightarrow> v \<noteq> None"

definition truthy_number :: "int option \<Rightarrow> bool" where
  "truthy_number v \<longleftrightarrow> (case v of None \<Rightarrow> False | Some n \<Rightarrow> n \<noteq> 0)"

primrec for_await :: "env \<Rightarrow> path \<Rightarrow> message list \<Rightarrow> unit io" where
  "for_await env blockExportPath [] w =
     (if stream_end env = StreamThrows then throw StreamError w else return () w)"
| "for_await env blockExportPath (result # rest) w =
     (let w1 = w\<lparr>channel := rest, trace := trace w @ [Recv result]\<rparr>
      in if truthy_buffer (msg_buffer result) \<and> truthy_number (msg_seq result)
         then (let blockFilePath = path_join blockExportPath (show_int (the (msg_seq result)))
               in and_then (writeFile env blockFilePath (the (msg_buffer result)))
                    (\<lambda>_. and_then (emit (ProgressUpdate (the (msg_seq result))))
                    (\<lambda>_. for_await env blockExportPath rest)) w1)
         else for_await env blockExportPath rest w1)"

text \<open>Lines 66 to 91: the stream, its bounds, the progress bar and the loop.\<close>

definition stream_blocks :: "env \<Rightarrow> path \<Rightarrow> (int \<times> int) io" where
  "stream_blocks env blockExportPath =
     and_then (connectRpc env) (\<lambda>_.
     and_then (snapshotChainStream env) (\<lambda>_.
     and_then (first env) (\<lambda>m.
     let start = msg_start m; stop = msg_stop m in
     and_then (emit (ProgressStart (stop - start + 1) 0)) (\<lambda>_.
     and_then (\<lambda>w. for_await env blockExportPath (channel w) w) (\<lambda>_.
     and_then (emit ProgressStop) (\<lambda>_.
     return (start, stop)))))))"

text \<open>Lines 93 to 103: the time stamp, the name of the archive, \<^verbatim>\<open>zipDir\<close> and \<^verbatim>\<open>stat\<close>.\<close>

definition archive :: "env \<Rightarrow> path \<Rightarrow> path \<Rightarrow> (int \<times> string \<times> path \<times> int) io" where
  "archive env exportDir blockExportPath =
     and_then (date_now env) (\<lambda>timestamp.
     let snapshotFileName = ''ironfish_snapshot_'' @ show_int timestamp @ ''.tar.gz'';
         snapshotPath = path_join exportDir snapshotFileName in
     and_then (zipDir env blockExportPath snapshotPath []) (\<lambda>_.
     and_then (stat_size snapshotPath) (\<lambda>fileSize.
     return (timestamp, snapshotFileName, snapshotPath, fileSize))))"

text \<open>Lines 105 to 114: the digest of the archive, chunk after chunk.\<close>

definition digest :: "env \<Rightarrow> path \<Rightarrow> string io" where
  "digest env snapshotPath =
     and_then (createReadStream env snapshotPath) (\<lambda>stream.
     let hasher = foldl hasher_update [] stream in
     return (to_hex (hasher_digest env hasher)))"

text \<open>The values \<^verbatim>\<open>start\<close> holds when it reaches line 116.\<close>

record job =
  exportDir :: path
  blockExportPath :: path
  stop :: int
  timestamp :: int
  snapshotFileName :: string
  snapshotPath :: path
  fileSize :: int
  checksum :: string

text \<open>Lines 44 to 114: everything before the test of the bucket.\<close>

definition snapshot :: "env \<Rightarrow> job io" where
  "snapshot env =
     and_then (prepare_dir env) (\<lambda>(dir, blocks).
     and_then (stream_blocks env blocks) (\<lambda>(first_seq, last_seq).
     and_then (archive env dir blocks) (\<lambda>(time, name, tarball, sz).
     and_then (digest env tarball) (\<lambda>hex.
     return \<lparr>exportDir = dir, blockExportPath = blocks, stop = last_seq,
             timestamp = time, snapshotFileName = name,
             snapshotPath = tarball, fileSize = sz, checksum = hex\<rparr>))))"

text \<open>
  Lines 128 to 134: the object given to \<^verbatim>\<open>JSON.stringify\<close>, and its text (in a
  string the quote and the backslash are escaped; the strings here have no control
  characters).
\<close>

record manifest =
  block_height :: int
  manifest_checksum :: string
  file_name :: string
  file_size :: int
  manifest_timestamp :: int

definition manifest_of :: "job \<Rightarrow> manifest" where
  "manifest_of j =
     (let blockHeight = stop j
      in \<lparr>block_height = blockHeight, manifest_checksum = checksum j,
          file_name = snapshotFileName j, file_size = fileSize j,
          manifest_timestamp = timestamp j\<rparr>)"

definition json_string :: "string \<Rightarrow> string" where
  "json_string s =
     CHR 0x22 #
     concat (map (\<lambda>c. if c = CHR 0x22 \<or> c = CHR 0x5C then [CHR 0x5C, c] else [c]) s) @
     [CHR 0x22]"

definition JSON_stringify :: "manifest \<Rightarrow> string" where
  "JSON_stringify m =
     ''{'' @ json_string ''block_height'' @ '':'' @ show_int (block_height m) @
     '','' @ json_string ''checksum'' @ '':'' @ json_string (manifest_checksum m) @
     '','' @ json_string ''file_name'' @ '':'' @ json_string (file_name m) @
     '','' @ json_string ''file_size'' @ '':'' @ show_int (file_size m) @
     '','' @ json_string ''timestamp'' @ '':'' @ show_int (manifest_timestamp m) @ ''}''"

text \<open>Lines 116 to 141: the uploads, when a bucket is given.\<close>

definition publish :: "env \<Rightarrow> job \<Rightarrow> unit io" where
  "publish env j =
     (let bucket = bucket_of env in
      if bucket \<noteq> [] then
        and_then (uploadToBucket env (snapshotPath j) bucket ''application/x-compressed-tar'') (\<lambda>_.
        let manifestPath = path_join (exportDir j) ''manifest.json'' in
        and_then (writeFile env manifestPath (bytes_of (JSON_stringify (manifest_of j)))) (\<lambda>_.
        and_then (uploadToBucket env manifestPath bucket ''application/json'') (\<lambda>_.
        return ())))
      else return ())"

definition start :: "env \<Rightarrow> unit io" where
  "start env = and_then (snapshot env) (publish env)"

subsection \<open>What a run leaves behind\<close>

text \<open>
  The record that the loop writes: the sequence number and the payload of a message that has
  a payload and a sequence number other than zero.
\<close>

definition writable :: "message \<Rightarrow> (int \<times> bytes) option" where
  "writable m =
     (case msg_buffer m of
        None \<Rightarrow> None
      | Some b \<Rightarrow> (case msg_seq m of
                    None \<Rightarrow> None
                  | Some k \<Rightarrow> if k = 0 then None else Some (k, b)))"

definition writes :: "message list \<Rightarrow> (int \<times> bytes) list" where
  "writes ms = List.map_filter writable ms"

text \<open>The payloads written under the sequence number \<open>k\<close>, in the order of the stream.\<close>

definition payloads_for :: "int \<Rightarrow> message list \<Rightarrow> bytes list" where
  "payloads_for k ms = map snd (filter (\<lambda>kb. fst kb = k) (writes ms))"

definition block_file :: "path \<Rightarrow> int \<Rightarrow> path" where
  "block_file dir k = path_join dir (show_int k)"

text \<open>The events of one turn of the loop, and the files the loop writes, in order.\<close>

definition record_events :: "path \<Rightarrow> message \<Rightarrow> event list" where
  "record_events dir m =
     Recv m # (case writable m of
                 None \<Rightarrow> []
               | Some (k, b) \<Rightarrow> [WriteFile (block_file dir k) b, ProgressUpdate k])"

definition block_writes :: "path \<Rightarrow> message list \<Rightarrow> (path \<times> bytes) list" where
  "block_writes dir ms = map (\<lambda>(k, b). (block_file dir k, b)) (writes ms)"

text \<open>The directory \<^verbatim>\<open>exportDir\<close> of a run that got one.\<close>

definition chosen_dir :: "env \<Rightarrow> path" where
  "chosen_dir env =
     (if truthy_string (flags_path env) then resolve env (the (flags_path env))
      else (case mkdtemp env of Some dir \<Rightarrow> dir | None \<Rightarrow> []))"

text \<open>
  The path of the manifest, and the command lines of the two uploads of a run whose state
  is \<open>w\<close> when it reaches line 116.
\<close>

definition manifest_path :: "job \<Rightarrow> path" where
  "manifest_path j = path_join (exportDir j) ''manifest.json''"

definition archive_upload_args :: "env \<Rightarrow> job \<Rightarrow> world \<Rightarrow> string list" where
  "archive_upload_args env j w =
     uploadToBucket_args (toISOString env (clock env (clock_reads w))) (snapshotPath j)
       (bucket_of env) ''application/x-compressed-tar''"

definition manifest_upload_args :: "env \<Rightarrow> job \<Rightarrow> world \<Rightarrow> string list" where
  "manifest_upload_args env j w =
     uploadToBucket_args (toISOString env (clock env (Suc (clock_reads w)))) (manifest_path j)
       (bucket_of env) ''application/json''"

text \<open>The message that an event takes from the stream, if it takes one.\<close>

fun received :: "event \<Rightarrow> message option" where
  "received (Recv m) = Some m"
| "received _ = None"

text \<open>The events of the digest and of the uploads, and the spawning of a command.\<close>

fun is_spawn :: "string \<Rightarrow> event \<Rightarrow> bool" where
  "is_spawn cmd (Spawn c args) = (c = cmd)"
| "is_spawn cmd _ = False"

fun is_digest_or_upload :: "event \<Rightarrow> bool" where
  "is_digest_or_upload (Stat p) = True"
| "is_digest_or_upload (OpenRead p) = True"
| "is_digest_or_upload (Spawn c args) = (c = ''curl'')"
| "is_digest_or_upload _ = False"

fun writes_to :: "path \<Rightarrow> event \<Rightarrow> bool" where
  "writes_to p (WriteFile q content) = (q = p)"
| "writes_to p _ = False"

text \<open>
  How \<^verbatim>\<open>curl\<close> reads the command line that \<^verbatim>\<open>uploadToBucket\<close> builds:
  \<^verbatim>\<open>-X\<close> takes the method, \<^verbatim>\<open>-T\<close> the file to upload, \<^verbatim>\<open>-H\<close> a header
  line, and an argument on its own is the URL.
\<close>

record request =
  req_method :: "string option"
  req_upload :: "path option"
  req_headers :: "string list"
  req_url :: "string option"

fun curl_request :: "string list \<Rightarrow> request \<Rightarrow> request" where
  "curl_request [] r = r"
| "curl_request [a] r = r\<lparr>req_url := Some a\<rparr>"
| "curl_request (a # v # rest) r =
     (if a = ''-X'' then curl_request rest (r\<lparr>req_method := Some v\<rparr>)
      else if a = ''-T'' then curl_request rest (r\<lparr>req_upload := Some v\<rparr>)
      else if a = ''-H'' then curl_request rest (r\<lparr>req_headers := req_headers r @ [v]\<rparr>)
      else curl_request (v # rest) (r\<lparr>req_url := Some a\<rparr>))"

definition no_request :: request where
  "no_request = \<lparr>req_method = None, req_upload = None, req_headers = [], req_url = None\<rparr>"

subsection \<open>A run to try the statements on\<close>

text \<open>
  Bounds 10 and 12, then the blocks 10, 11 and 12 with the payloads \<^verbatim>\<open>A\<close>, \<^verbatim>\<open>B\<close> and
  \<^verbatim>\<open>C\<close>; a bucket is given, nothing fails. The hash function is a stand-in.
\<close>

definition bounds_msg :: "int \<Rightarrow> int \<Rightarrow> message" where
  "bounds_msg s e = \<lparr>msg_start = s, msg_stop = e, msg_seq = None, msg_buffer = None\<rparr>"

definition block_msg :: "int \<Rightarrow> int \<Rightarrow> int \<Rightarrow> bytes \<Rightarrow> message" where
  "block_msg s e k b = \<lparr>msg_start = s, msg_stop = e, msg_seq = Some k, msg_buffer = Some b\<rparr>"

definition example_env :: env where
  "example_env =
     \<lparr>flags_bucket = Some ''bucket.example.org'', env_bucket = None, flags_path = None,
      resolve = (\<lambda>p. p), mkdtemp = Some ''/tmp/snap'', mkdir_ok = True, connect_ok = True,
      stream_msgs = [bounds_msg 10 12, block_msg 10 12 10 [65], block_msg 10 12 11 [66],
                     block_msg 10 12 12 [67]],
      stream_end = StreamClosed, write_ok = (\<lambda>p. True),
      clock = (\<lambda>k. 1650000000000 + int k), toISOString = show_int,
      tar_outcome = Exited (Some 0), tar_archive = Some [31, 139, 8],
      highWaterMark = 2, read_ok = True,
      sha256 = (\<lambda>b. [171, of_nat (length b)]),
      curl_outcome = (\<lambda>args. Exited (Some 0))\<rparr>"

definition example_world :: world where
  "example_world = \<lparr>files = Map.empty, channel = [], clock_reads = 0, trace = []\<rparr>"

definition example_job :: job where
  "example_job =
     \<lparr>exportDir = ''/tmp/snap'', blockExportPath = ''/tmp/snap/blocks'', stop = 12,
      timestamp = 1650000000000,
      snapshotFileName = ''ironfish_snapshot_1650000000000.tar.gz'',
      snapshotPath = ''/tmp/snap/ironfish_snapshot_1650000000000.tar.gz'',
      fileSize = 3, checksum = ''ab03''\<rparr>"

text \<open>The same run, but the upload of the archive exits with the status 22.\<close>

definition rejected_upload_env :: env where
  "rejected_upload_env =
     example_env\<lparr>curl_outcome :=
       (\<lambda>args. if last args = ''https://bucket.example.org/manifest.json''
               then Exited (Some 0) else Exited (Some 22))\<rparr>"

text \<open>
  The same run, but \<^verbatim>\<open>curl\<close> cannot be spawned; and but the file
  \<^verbatim>\<open>manifest.json\<close> cannot be written.
\<close>

definition curl_missing_env :: env where
  "curl_missing_env = example_env\<lparr>curl_outcome := (\<lambda>args. SpawnFailed)\<rparr>"

definition manifest_unwritable_env :: env where
  "manifest_unwritable_env =
     example_env\<lparr>write_ok := (\<lambda>p. p \<noteq> ''/tmp/snap/manifest.json'')\<rparr>"

text \<open>
  The same run, but \<^verbatim>\<open>tar\<close> cannot be spawned; but \<^verbatim>\<open>tar\<close> exits with the status
  2 and leaves a part of the archive; but the stream ends after the block 10; and but the
  iteration of that short stream throws.
\<close>

definition tar_missing_env :: env where
  "tar_missing_env = example_env\<lparr>tar_outcome := SpawnFailed\<rparr>"

definition tar_partial_env :: env where
  "tar_partial_env = example_env\<lparr>tar_outcome := Exited (Some 2), tar_archive := Some [31, 139]\<rparr>"

definition short_stream_env :: env where
  "short_stream_env =
     example_env\<lparr>stream_msgs := [bounds_msg 10 12, block_msg 10 12 10 [65]]\<rparr>"

definition broken_stream_env :: env where
  "broken_stream_env = short_stream_env\<lparr>stream_end := StreamThrows\<rparr>"

text \<open>The same run, but a block 13, outside the bounds, follows the block 10.\<close>

definition stray_block_env :: env where
  "stray_block_env =
     example_env\<lparr>stream_msgs :=
       [bounds_msg 10 12, block_msg 10 12 10 [65], block_msg 10 12 13 [68]]\<rparr>"

subsection \<open>Reasoning about what a step adds to the trace\<close>

text \<open>The events of the steps before \<^verbatim>\<open>tar\<close> is spawned.\<close>

fun before_archive :: "event \<Rightarrow> bool" where
  "before_archive (Mkdir p) = True"
| "before_archive (Recv m) = True"
| "before_archive (ProgressStart n k) = True"
| "before_archive (ProgressUpdate n) = True"
| "before_archive ProgressStop = True"
| "before_archive (WriteFile p content) = True"
| "before_archive _ = False"

text \<open>
  \<open>adds P m\<close>: the step \<open>m\<close> only appends to the trace, and only events that satisfy
  \<open>P\<close>. \<open>fails m\<close>: the step \<open>m\<close> never returns a value.
\<close>

definition adds :: "(event \<Rightarrow> bool) \<Rightarrow> 'a io \<Rightarrow> bool" where
  "adds P m \<longleftrightarrow> (\<forall>w. \<exists>evs. trace (snd (m w)) = trace w @ evs \<and> list_all P evs)"

definition fails :: "'a io \<Rightarrow> bool" where
  "fails m \<longleftrightarrow> (\<forall>w. \<exists>e. fst (m w) = Inl e)"

section \<open>Lemmas\<close>

subsection \<open>Decimal numerals\<close>

lemma of_char_digit_char: "d < 10 \<Longrightarrow> (of_char (digit_char d) :: nat) = 48 + d"
proof -
  assume "d < 10"
  then consider "d = 0" | "d = 1" | "d = 2" | "d = 3" | "d = 4" | "d = 5" | "d = 6" | "d = 7"
    | "d = 8" | "d = 9"
    by atomize_elim arith
  then show ?thesis
    by cases (simp_all add: digit_char_def)
qed

lemma digit_char_inj:
  assumes "d < 10" and "d' < 10" and "digit_char d = digit_char d'"
  shows "d = d'"
proof -
  have "(of_char (digit_char d) :: nat) = of_char (digit_char d')"
    using assms(3) by simp
  with assms(1,2) show ?thesis
    by (simp add: of_char_digit_char)
qed

lemma digit_char_range: "d < 10 \<Longrightarrow> digit_char d \<in> set ''0123456789''"
  unfolding digit_char_def by (rule nth_mem) simp

lemma show_nat_nonempty: "show_nat n \<noteq> []"
  by (subst show_nat.simps) simp

lemma show_nat_digits: "set (show_nat n) \<subseteq> set ''0123456789''"
proof (induction n rule: show_nat.induct)
  case (1 n)
  show ?case
  proof (cases "n < 10")
    case True
    then show ?thesis
      using digit_char_range [of n] by (subst show_nat.simps) simp
  next
    case False
    have "n mod 10 < 10" by simp
    then have "digit_char (n mod 10) \<in> set ''0123456789''" by (rule digit_char_range)
    with False "1.IH" show ?thesis
      by (subst show_nat.simps) simp
  qed
qed

lemma show_nat_inj: "show_nat n = show_nat m \<Longrightarrow> n = m"
proof (induction n arbitrary: m rule: show_nat.induct)
  case (1 n)
  show ?case
  proof (cases "n < 10")
    case small_n: True
    show ?thesis
    proof (cases "m < 10")
      case True
      with small_n "1.prems" have "digit_char n = digit_char m"
        by (simp add: show_nat.simps [of n] show_nat.simps [of m])
      with small_n True show ?thesis by (rule digit_char_inj)
    next
      case False
      with small_n "1.prems" have "show_nat (m div 10) = []"
        by (simp add: show_nat.simps [of n] show_nat.simps [of m])
      then show ?thesis by (simp add: show_nat_nonempty)
    qed
  next
    case big_n: False
    show ?thesis
    proof (cases "m < 10")
      case True
      with big_n "1.prems" have "show_nat (n div 10) = []"
        by (simp add: show_nat.simps [of n] show_nat.simps [of m])
      then show ?thesis by (simp add: show_nat_nonempty)
    next
      case False
      with big_n "1.prems" have tens: "show_nat (n div 10) = show_nat (m div 10)"
        and units: "digit_char (n mod 10) = digit_char (m mod 10)"
        by (simp_all add: show_nat.simps [of n] show_nat.simps [of m])
      from big_n tens have "n div 10 = m div 10" by (rule "1.IH")
      moreover have "n mod 10 = m mod 10"
        using units by (intro digit_char_inj) simp_all
      ultimately show ?thesis
        by (metis div_mult_mod_eq)
    qed
  qed
qed

lemma minus_not_in_show_nat: "CHR ''-'' \<notin> set (show_nat n)"
  using show_nat_digits [of n] by auto

lemma sep_not_in_show_nat: "CHR ''/'' \<notin> set (show_nat n)"
  using show_nat_digits [of n] by auto

lemma sep_not_in_show_int: "CHR ''/'' \<notin> set (show_int i)"
  by (simp add: show_int_def sep_not_in_show_nat)

lemma show_int_nonempty: "show_int i \<noteq> []"
  by (simp add: show_int_def show_nat_nonempty)

lemma show_int_inj: "show_int i = show_int j \<Longrightarrow> i = j"
proof -
  assume eq: "show_int i = show_int j"
  have neg_pos: False if "a < 0" and "\<not> b < 0" and "show_int a = show_int b" for a b
  proof -
    from that have "CHR ''-'' # show_nat (nat (- a)) = show_nat (nat b)"
      by (simp add: show_int_def)
    then have "CHR ''-'' \<in> set (show_nat (nat b))"
      by (metis list.set_intros(1))
    then show False by (simp add: minus_not_in_show_nat)
  qed
  show ?thesis
  proof (cases "i < 0")
    case True
    show ?thesis
    proof (cases "j < 0")
      case j: True
      with True eq have "nat (- i) = nat (- j)"
        by (simp add: show_int_def show_nat_inj)
      with True j show ?thesis by simp
    next
      case False
      with True eq neg_pos show ?thesis by blast
    qed
  next
    case False
    show ?thesis
    proof (cases "j < 0")
      case True
      with False eq neg_pos [of j i] show ?thesis by simp
    next
      case j: False
      with False eq have "nat i = nat j"
        by (simp add: show_int_def show_nat_inj)
      with False j show ?thesis by simp
    qed
  qed
qed

subsection \<open>Paths\<close>

lemma basename_path_join:
  assumes "name \<noteq> []" and "CHR ''/'' \<notin> set name"
  shows "basename (path_join dir name) = name"
proof -
  have no_sep: "\<forall>c \<in> set (rev name). \<not> is_sep c"
    using assms(2) by (auto simp: is_sep_def)
  from assms(1) obtain c cs where rn: "rev name = c # cs"
    by (cases "rev name") auto
  with no_sep have "\<not> is_sep c" by simp
  then have drop: "dropWhile is_sep (rev name @ CHR ''/'' # rev dir) = rev name @ CHR ''/'' # rev dir"
    by (simp add: rn)
  have "takeWhile (\<lambda>c. \<not> is_sep c) (rev name @ CHR ''/'' # rev dir) = rev name"
    using no_sep by (simp add: takeWhile_append2 takeWhile_tail is_sep_def)
  with drop show ?thesis
    by (simp add: basename_def path_join_def)
qed

lemma snapshot_name_no_sep:
  "CHR ''/'' \<notin> set (''ironfish_snapshot_'' @ show_int t @ ''.tar.gz'')"
  by (simp add: sep_not_in_show_int)

lemma block_path_neq_snapshot:
  "path_join (path_join dir ''blocks'') n \<noteq> path_join dir (''ironfish_snapshot_'' @ x)"
  by (simp add: path_join_def)

lemma block_path_neq_manifest:
  "path_join (path_join dir ''blocks'') n \<noteq> path_join dir ''manifest.json''"
  by (simp add: path_join_def)

lemma manifest_neq_snapshot:
  "path_join dir ''manifest.json'' \<noteq> path_join dir (''ironfish_snapshot_'' @ x)"
  by (simp add: path_join_def)

lemma path_join_inj: "path_join dir n = path_join dir n' \<longleftrightarrow> n = n'"
  by (simp add: path_join_def)

subsection \<open>Chunks\<close>

lemma concat_chunks_of: "concat (chunks_of n xs) = xs"
proof (induction n xs rule: chunks_of.induct)
  case (1 n)
  show ?case by simp
next
  case (2 n x xs)
  then show ?case
    by (simp only: chunks_of.simps concat.simps append_take_drop_id)
qed

lemma foldl_hasher_update: "foldl hasher_update h chunks = h @ concat chunks"
  by (induction chunks arbitrary: h) (simp_all add: hasher_update_def)

subsection \<open>Sequencing\<close>

lemma and_then_Inr: "m w = (Inr x, w1) \<Longrightarrow> and_then m f w = f x w1"
  by (simp add: and_then_def)

lemma and_then_Inl: "m w = (Inl e, w1) \<Longrightarrow> and_then m f w = (Inl e, w1)"
  by (simp add: and_then_def)

lemma and_then_okE:
  assumes "and_then m f w = (Inr y, w')"
  obtains x w1 where "m w = (Inr x, w1)" and "f x w1 = (Inr y, w')"
  using assms by (auto simp: and_then_def split: prod.splits sum.splits)

lemma and_then_cases:
  assumes "and_then m f w = (r, w')"
  obtains (stop) e where "m w = (Inl e, w')" and "r = Inl e"
  | (go) x w1 where "m w = (Inr x, w1)" and "f x w1 = (r, w')"
  using assms by (auto simp: and_then_def split: prod.splits sum.splits)

subsection \<open>The loop\<close>

lemma writable_None_iff:
  "writable m = None \<longleftrightarrow> \<not> (truthy_buffer (msg_buffer m) \<and> truthy_number (msg_seq m))"
  by (simp add: writable_def truthy_buffer_def truthy_number_def split: option.splits)

lemma writable_SomeD:
  "writable m = Some (k, b) \<Longrightarrow> msg_seq m = Some k \<and> msg_buffer m = Some b \<and> k \<noteq> 0"
  by (simp add: writable_def split: option.splits if_splits)

lemma writable_the:
  "truthy_buffer (msg_buffer m) \<Longrightarrow> truthy_number (msg_seq m) \<Longrightarrow>
   writable m = Some (the (msg_seq m), the (msg_buffer m))"
  by (auto simp: writable_def truthy_buffer_def truthy_number_def split: option.splits)

lemma writes_Cons:
  "writes (m # ms) = (case writable m of None \<Rightarrow> writes ms | Some kb \<Rightarrow> kb # writes ms)"
  by (simp add: writes_def List.map_filter_simps split: option.splits)

lemma writes_Nil: "writes [] = []"
  by (simp add: writes_def List.map_filter_simps)

lemma map_add_rev_Cons: "m ++ map_of (rev ((p, b) # xs)) = m(p \<mapsto> b) ++ map_of (rev xs)"
proof -
  have "m ++ map_of (rev ((p, b) # xs)) = m ++ ([p \<mapsto> b] ++ map_of (rev xs))"
    by (simp add: map_of_append)
  also have "\<dots> = (m ++ [p \<mapsto> b]) ++ map_of (rev xs)"
    by (simp only: map_add_assoc)
  finally show ?thesis by simp
qed

lemma for_await_skip:
  assumes "writable m = None"
  shows "for_await env dir (m # ms) w =
         for_await env dir ms (w\<lparr>channel := ms, trace := trace w @ [Recv m]\<rparr>)"
proof -
  from assms have c: "(truthy_buffer (msg_buffer m) \<and> truthy_number (msg_seq m)) = False"
    by (simp add: writable_None_iff)
  show ?thesis
    by (simp only: for_await.simps Let_def c if_False)
qed

lemma for_await_write:
  assumes "writable m = Some (k, b)"
  shows "for_await env dir (m # ms) w =
         (if write_ok env (block_file dir k)
          then for_await env dir ms
                 (w\<lparr>channel := ms, files := (files w)(block_file dir k \<mapsto> b),
                    trace := trace w @ [Recv m, WriteFile (block_file dir k) b, ProgressUpdate k]\<rparr>)
          else (Inl (WriteError (block_file dir k)),
                w\<lparr>channel := ms, trace := trace w @ [Recv m]\<rparr>))"
proof -
  have "writable m \<noteq> None" using assms by simp
  then have t: "(truthy_buffer (msg_buffer m) \<and> truthy_number (msg_seq m)) = True"
    by (simp add: writable_None_iff)
  from writable_SomeD [OF assms] have sel: "the (msg_seq m) = k" "the (msg_buffer m) = b"
    by simp_all
  have "for_await env dir (m # ms) w =
        and_then (writeFile env (block_file dir k) b)
          (\<lambda>_. and_then (emit (ProgressUpdate k)) (\<lambda>_. for_await env dir ms))
          (w\<lparr>channel := ms, trace := trace w @ [Recv m]\<rparr>)"
    by (simp only: for_await.simps Let_def t if_True sel block_file_def)
  also have "\<dots> = (if write_ok env (block_file dir k)
          then for_await env dir ms
                 (w\<lparr>channel := ms, files := (files w)(block_file dir k \<mapsto> b),
                    trace := trace w @ [Recv m, WriteFile (block_file dir k) b, ProgressUpdate k]\<rparr>)
          else (Inl (WriteError (block_file dir k)),
                w\<lparr>channel := ms, trace := trace w @ [Recv m]\<rparr>))"
    by (simp add: and_then_def writeFile_def emit_def)
  finally show ?thesis .
qed

declare for_await.simps(2) [simp del]

lemma for_await_ok:
  "for_await env dir ms w = (Inr u, w') \<Longrightarrow>
     stream_end env \<noteq> StreamThrows \<and>
     files w' = files w ++ map_of (rev (block_writes dir ms)) \<and>
     trace w' = trace w @ concat (map (record_events dir) ms) \<and>
     clock_reads w' = clock_reads w"
proof (induction ms arbitrary: w)
  case Nil
  then show ?case
    by (auto simp: throw_def return_def block_writes_def writes_Nil split: if_splits)
next
  case (Cons m ms)
  show ?case
  proof (cases "writable m")
    case None
    let ?W = "w\<lparr>channel := ms, trace := trace w @ [Recv m]\<rparr>"
    from Cons.prems have run: "for_await env dir ms ?W = (Inr u, w')"
      by (simp only: for_await_skip [OF None])
    have bw: "block_writes dir (m # ms) = block_writes dir ms"
      using None by (simp add: block_writes_def writes_Cons)
    have ev: "record_events dir m = [Recv m]"
      using None by (simp add: record_events_def)
    have W: "files ?W = files w" "trace ?W = trace w @ [Recv m]" "clock_reads ?W = clock_reads w"
      by simp_all
    from Cons.IH [OF run] show ?thesis
      unfolding W bw by (simp add: ev)
  next
    case (Some kb)
    obtain k b where kb: "kb = (k, b)" by (cases kb)
    with Some have wr: "writable m = Some (k, b)" by simp
    let ?W = "w\<lparr>channel := ms, files := (files w)(block_file dir k \<mapsto> b),
           trace := trace w @ [Recv m, WriteFile (block_file dir k) b, ProgressUpdate k]\<rparr>"
    from Cons.prems have ok: "write_ok env (block_file dir k)"
      by (simp only: for_await_write [OF wr] split: if_splits) simp
    with Cons.prems have run: "for_await env dir ms ?W = (Inr u, w')"
      by (simp only: for_await_write [OF wr] if_True)
    have bw: "files w ++ map_of (rev (block_writes dir (m # ms))) =
              (files w)(block_file dir k \<mapsto> b) ++ map_of (rev (block_writes dir ms))"
      using wr by (simp only: block_writes_def writes_Cons option.case list.map prod.case
                    map_add_rev_Cons)
    have ev: "record_events dir m = [Recv m, WriteFile (block_file dir k) b, ProgressUpdate k]"
      using wr by (simp add: record_events_def)
    have W: "files ?W = (files w)(block_file dir k \<mapsto> b)"
      "trace ?W = trace w @ [Recv m, WriteFile (block_file dir k) b, ProgressUpdate k]"
      "clock_reads ?W = clock_reads w"
      by simp_all
    from Cons.IH [OF run] show ?thesis
      by (simp add: ev bw fun_upd_def)
  qed
qed

lemma for_await_channel:
  "for_await env dir ms w = (Inr u, w') \<Longrightarrow> channel w = ms \<Longrightarrow> channel w' = []"
proof (induction ms arbitrary: w)
  case Nil
  then show ?case
    by (auto simp: throw_def return_def split: if_splits)
next
  case (Cons m ms)
  show ?case
  proof (cases "writable m")
    case None
    from Cons.prems(1) have "for_await env dir ms (w\<lparr>channel := ms, trace := trace w @ [Recv m]\<rparr>) = (Inr u, w')"
      by (simp only: for_await_skip [OF None])
    then show ?thesis by (rule Cons.IH) simp
  next
    case (Some kb)
    obtain k b where kb: "kb = (k, b)" by (cases kb)
    with Some have wr: "writable m = Some (k, b)" by simp
    from Cons.prems(1) have ok: "write_ok env (block_file dir k)"
      by (simp only: for_await_write [OF wr] split: if_splits) simp
    with Cons.prems(1) have "for_await env dir ms (w\<lparr>channel := ms, files := (files w)(block_file dir k \<mapsto> b),
           trace := trace w @ [Recv m, WriteFile (block_file dir k) b, ProgressUpdate k]\<rparr>) = (Inr u, w')"
      by (simp only: for_await_write [OF wr] if_True)
    then show ?thesis by (rule Cons.IH) simp
  qed
qed

subsection \<open>The phases of a run that succeed\<close>

lemma prepare_dir_ok:
  assumes "prepare_dir env w = (Inr (dir, blocks), w')"
  shows "dir = chosen_dir env \<and> blocks = path_join dir ''blocks'' \<and>
         w' = w\<lparr>trace := trace w @ [Mkdir blocks]\<rparr>"
  using assms
  by (auto simp: prepare_dir_def and_then_def return_def throw_def mkdir_def emit_def
        chosen_dir_def Let_def split: if_splits option.splits)

lemma first_ok:
  assumes "first env w = (Inr m, w')"
  shows "channel w = m # channel w' \<and> files w' = files w \<and> clock_reads w' = clock_reads w \<and>
         trace w' = trace w @ [Recv m]"
  using assms by (auto simp: first_def throw_def split: list.splits if_splits)

lemma stream_blocks_ok:
  assumes "stream_blocks env dir w = (Inr (s, e), w')"
  shows "stream_msgs env \<noteq> [] \<and>
         s = msg_start (hd (stream_msgs env)) \<and> e = msg_stop (hd (stream_msgs env)) \<and>
         stream_end env = StreamClosed \<and>
         files w' = files w ++ map_of (rev (block_writes dir (tl (stream_msgs env)))) \<and>
         trace w' = trace w @ Recv (hd (stream_msgs env)) # ProgressStart (e - s + 1) 0 #
                      concat (map (record_events dir) (tl (stream_msgs env))) @ [ProgressStop] \<and>
         clock_reads w' = clock_reads w \<and> channel w' = []"
proof -
  from assms obtain m w3 w5 u where
    conn: "connect_ok env" and
    fst: "first env (w\<lparr>channel := stream_msgs env\<rparr>) = (Inr m, w3)" and
    se: "s = msg_start m" "e = msg_stop m" and
    loop: "for_await env dir (channel w3)
             (w3\<lparr>trace := trace w3 @ [ProgressStart (msg_stop m - msg_start m + 1) 0]\<rparr>) = (Inr u, w5)" and
    fin: "w' = w5\<lparr>trace := trace w5 @ [ProgressStop]\<rparr>"
    unfolding stream_blocks_def Let_def
    by (elim and_then_okE)
       (auto simp: connectRpc_def snapshotChainStream_def emit_def return_def throw_def
             split: if_splits)
  from first_ok [OF fst] have msgs: "stream_msgs env = m # channel w3"
    and w3: "files w3 = files w" "clock_reads w3 = clock_reads w" "trace w3 = trace w @ [Recv m]"
    by simp_all
  from for_await_ok [OF loop] have closed: "stream_end env \<noteq> StreamThrows"
    and w5: "files w5 = files w3 ++ map_of (rev (block_writes dir (channel w3)))"
      "trace w5 = trace w3 @ ProgressStart (msg_stop m - msg_start m + 1) 0 #
                    concat (map (record_events dir) (channel w3))"
      "clock_reads w5 = clock_reads w3"
    by simp_all
  from for_await_channel [OF loop] have ch: "channel w5 = []" by simp
  from closed have "stream_end env = StreamClosed" by (cases "stream_end env") simp_all
  with msgs se w3 w5 ch fin show ?thesis by simp
qed

lemma uploadToBucket_run:
  "uploadToBucket env dest host contentType w =
     (case curl_outcome env
             (uploadToBucket_args (toISOString env (clock env (clock_reads w))) dest host contentType) of
        SpawnFailed \<Rightarrow> Inl (SpawnError ''curl'')
      | Exited code \<Rightarrow> Inr code,
      w\<lparr>clock_reads := Suc (clock_reads w),
        trace := trace w @
          [ClockRead (clock env (clock_reads w)),
           Spawn ''curl''
             (uploadToBucket_args (toISOString env (clock env (clock_reads w))) dest host contentType)]\<rparr>)"
  by (simp add: uploadToBucket_def and_then_def date_now_def emit_def throw_def return_def Let_def
        split: proc_outcome.splits)

lemma zipDir_run:
  "zipDir env source dest excludes w =
     (case tar_outcome env of
        SpawnFailed \<Rightarrow>
          (Inl (SpawnError ''tar''),
           w\<lparr>trace := trace w @ [Spawn ''tar'' (zipDir_args source dest excludes)]\<rparr>)
      | Exited code \<Rightarrow>
          (Inr code,
           w\<lparr>trace := trace w @ [Spawn ''tar'' (zipDir_args source dest excludes)],
             files := (case tar_archive env of
                         None \<Rightarrow> files w
                       | Some content \<Rightarrow> (files w)(dest \<mapsto> content))\<rparr>))"
  by (simp add: zipDir_def and_then_def emit_def throw_def return_def tar_writes_def
        split: proc_outcome.splits option.splits)

lemma archive_ok:
  assumes "archive env dir blocks w = (Inr (t, name, p, sz), w')"
  shows "t = clock env (clock_reads w) \<and>
         name = ''ironfish_snapshot_'' @ show_int t @ ''.tar.gz'' \<and>
         p = path_join dir name \<and>
         tar_outcome env \<noteq> SpawnFailed \<and>
         files w' = (case tar_archive env of None \<Rightarrow> files w | Some content \<Rightarrow> (files w)(p \<mapsto> content)) \<and>
         (\<exists>content. files w' p = Some content \<and> sz = int (length content)) \<and>
         trace w' = trace w @ [ClockRead t, Spawn ''tar'' (zipDir_args blocks p []), Stat p] \<and>
         clock_reads w' = Suc (clock_reads w) \<and> channel w' = channel w"
  using assms
  by (auto simp: archive_def and_then_def date_now_def zipDir_run stat_size_def emit_def
        return_def throw_def Let_def
        split: proc_outcome.splits option.splits)

lemma digest_ok:
  assumes "digest env p w = (Inr h, w')"
  shows "(\<exists>content. files w p = Some content \<and> h = to_hex (sha256 env content)) \<and>
         w' = w\<lparr>trace := trace w @ [OpenRead p]\<rparr>"
  using assms
  by (auto simp: digest_def and_then_def createReadStream_def emit_def return_def throw_def
        Let_def hasher_digest_def foldl_hasher_update concat_chunks_of
        split: option.splits if_splits)

lemma snapshot_okE:
  assumes "snapshot env w = (Inr j, w1)"
  obtains dir blocks w2 s e w3 t name p sz w4 h where
    "prepare_dir env w = (Inr (dir, blocks), w2)"
    "stream_blocks env blocks w2 = (Inr (s, e), w3)"
    "archive env dir blocks w3 = (Inr (t, name, p, sz), w4)"
    "digest env p w4 = (Inr h, w1)"
    "j = \<lparr>exportDir = dir, blockExportPath = blocks, stop = e, timestamp = t,
          snapshotFileName = name, snapshotPath = p, fileSize = sz, checksum = h\<rparr>"
  using assms unfolding snapshot_def
  by (auto simp: return_def elim!: and_then_okE split: prod.splits)

lemma snapshot_ok:
  assumes "snapshot env w = (Inr j, w1)"
  shows "exportDir j = chosen_dir env"
    and "blockExportPath j = path_join (exportDir j) ''blocks''"
    and "stream_msgs env \<noteq> []"
    and "stream_end env = StreamClosed"
    and "tar_outcome env \<noteq> SpawnFailed"
    and "stop j = msg_stop (hd (stream_msgs env))"
    and "timestamp j = clock env (clock_reads w)"
    and "snapshotFileName j = ''ironfish_snapshot_'' @ show_int (timestamp j) @ ''.tar.gz''"
    and "snapshotPath j = path_join (exportDir j) (snapshotFileName j)"
    and "files w1 =
           (case tar_archive env of
              None \<Rightarrow> files w ++ map_of (rev (block_writes (blockExportPath j) (tl (stream_msgs env))))
            | Some content \<Rightarrow>
                (files w ++ map_of (rev (block_writes (blockExportPath j) (tl (stream_msgs env)))))
                  (snapshotPath j \<mapsto> content))"
    and "\<exists>content. files w1 (snapshotPath j) = Some content \<and>
           fileSize j = int (length content) \<and> checksum j = to_hex (sha256 env content)"
    and "trace w1 = trace w @
           [Mkdir (blockExportPath j), Recv (hd (stream_msgs env)),
            ProgressStart (msg_stop (hd (stream_msgs env)) - msg_start (hd (stream_msgs env)) + 1) 0] @
           concat (map (record_events (blockExportPath j)) (tl (stream_msgs env))) @
           [ProgressStop, ClockRead (timestamp j),
            Spawn ''tar'' (zipDir_args (blockExportPath j) (snapshotPath j) []),
            Stat (snapshotPath j), OpenRead (snapshotPath j)]"
    and "clock_reads w1 = Suc (clock_reads w)"
    and "channel w1 = []"
proof -
  from assms obtain dir blocks w2 s e w3 t name p sz w4 h where
    prep: "prepare_dir env w = (Inr (dir, blocks), w2)" and
    strm: "stream_blocks env blocks w2 = (Inr (s, e), w3)" and
    arch: "archive env dir blocks w3 = (Inr (t, name, p, sz), w4)" and
    dig: "digest env p w4 = (Inr h, w1)" and
    j: "j = \<lparr>exportDir = dir, blockExportPath = blocks, stop = e, timestamp = t,
          snapshotFileName = name, snapshotPath = p, fileSize = sz, checksum = h\<rparr>"
    by (rule snapshot_okE)
  note P = prepare_dir_ok [OF prep] and S = stream_blocks_ok [OF strm]
    and A = archive_ok [OF arch] and D = digest_ok [OF dig]
  from P have w2: "files w2 = files w" "trace w2 = trace w @ [Mkdir blocks]"
    "clock_reads w2 = clock_reads w"
    by simp_all
  from D have w1: "files w1 = files w4" "trace w1 = trace w4 @ [OpenRead p]"
    "clock_reads w1 = clock_reads w4" "channel w1 = channel w4"
    by simp_all
  show "exportDir j = chosen_dir env" using P j by simp
  show "blockExportPath j = path_join (exportDir j) ''blocks''" using P j by simp
  show "stream_msgs env \<noteq> []" using S by simp
  show "stream_end env = StreamClosed" using S by simp
  show "tar_outcome env \<noteq> SpawnFailed" using A by simp
  show "stop j = msg_stop (hd (stream_msgs env))" using S j by simp
  show "timestamp j = clock env (clock_reads w)" using A S w2 j by simp
  show "snapshotFileName j = ''ironfish_snapshot_'' @ show_int (timestamp j) @ ''.tar.gz''"
    using A j by simp
  show "snapshotPath j = path_join (exportDir j) (snapshotFileName j)" using A j by simp
  show "files w1 =
           (case tar_archive env of
              None \<Rightarrow> files w ++ map_of (rev (block_writes (blockExportPath j) (tl (stream_msgs env))))
            | Some content \<Rightarrow>
                (files w ++ map_of (rev (block_writes (blockExportPath j) (tl (stream_msgs env)))))
                  (snapshotPath j \<mapsto> content))"
    using A S w1 w2 j by (simp split: option.splits)
  show "\<exists>content. files w1 (snapshotPath j) = Some content \<and>
           fileSize j = int (length content) \<and> checksum j = to_hex (sha256 env content)"
    using A D w1 j by auto
  show "trace w1 = trace w @
           [Mkdir (blockExportPath j), Recv (hd (stream_msgs env)),
            ProgressStart (msg_stop (hd (stream_msgs env)) - msg_start (hd (stream_msgs env)) + 1) 0] @
           concat (map (record_events (blockExportPath j)) (tl (stream_msgs env))) @
           [ProgressStop, ClockRead (timestamp j),
            Spawn ''tar'' (zipDir_args (blockExportPath j) (snapshotPath j) []),
            Stat (snapshotPath j), OpenRead (snapshotPath j)]"
    using A S w1 w2 j by simp
  show "clock_reads w1 = Suc (clock_reads w)" using A S w1 w2 by simp
  show "channel w1 = []" using A S w1 by simp
qed

subsection \<open>The uploads\<close>

lemma publish_no_bucket: "bucket_of env = [] \<Longrightarrow> publish env j w = (Inr (), w)"
  by (simp add: publish_def return_def)

lemma publish_spawn_failed:
  assumes "bucket_of env \<noteq> []"
    and "curl_outcome env (archive_upload_args env j w) = SpawnFailed"
  shows "publish env j w =
         (Inl (SpawnError ''curl''),
          w\<lparr>clock_reads := Suc (clock_reads w),
            trace := trace w @ [ClockRead (clock env (clock_reads w)),
                                Spawn ''curl'' (archive_upload_args env j w)]\<rparr>)"
  using assms
  by (simp add: publish_def Let_def and_then_def uploadToBucket_run archive_upload_args_def)

lemma publish_write_failed:
  assumes "bucket_of env \<noteq> []"
    and "curl_outcome env (archive_upload_args env j w) = Exited code"
    and "\<not> write_ok env (manifest_path j)"
  shows "publish env j w =
         (Inl (WriteError (manifest_path j)),
          w\<lparr>clock_reads := Suc (clock_reads w),
            trace := trace w @ [ClockRead (clock env (clock_reads w)),
                                Spawn ''curl'' (archive_upload_args env j w)]\<rparr>)"
  using assms
  by (simp add: publish_def Let_def and_then_def uploadToBucket_run archive_upload_args_def
        manifest_path_def writeFile_def)

lemma publish_exited:
  assumes "bucket_of env \<noteq> []"
    and "curl_outcome env (archive_upload_args env j w) = Exited code"
    and "write_ok env (manifest_path j)"
  shows "publish env j w =
         (case curl_outcome env (manifest_upload_args env j w) of
            SpawnFailed \<Rightarrow> Inl (SpawnError ''curl'')
          | Exited c \<Rightarrow> Inr (),
          w\<lparr>clock_reads := Suc (Suc (clock_reads w)),
            files := (files w)(manifest_path j \<mapsto> bytes_of (JSON_stringify (manifest_of j))),
            trace := trace w @
              [ClockRead (clock env (clock_reads w)),
               Spawn ''curl'' (archive_upload_args env j w),
               WriteFile (manifest_path j) (bytes_of (JSON_stringify (manifest_of j))),
               ClockRead (clock env (Suc (clock_reads w))),
               Spawn ''curl'' (manifest_upload_args env j w)]\<rparr>)"
  using assms
  by (simp add: publish_def Let_def and_then_def uploadToBucket_run archive_upload_args_def
        manifest_upload_args_def manifest_path_def writeFile_def return_def
        split: proc_outcome.splits)

lemma start_after_snapshot:
  "snapshot env w = (Inr j, w1) \<Longrightarrow> start env w = publish env j w1"
  by (simp add: start_def and_then_def)

subsection \<open>Evaluating a run\<close>

lemmas step_defs =
  return_def throw_def and_then_def emit_def mkdir_def connectRpc_def snapshotChainStream_def
  first_def writeFile_def date_now_def stat_size_def createReadStream_def hasher_update_def
  hasher_digest_def zipDir_args_def tar_writes_def zipDir_def uploadToBucket_args_def
  uploadToBucket_def truthy_string_def bucket_of_def prepare_dir_def truthy_buffer_def
  truthy_number_def stream_blocks_def archive_def digest_def snapshot_def manifest_of_def
  json_string_def JSON_stringify_def publish_def start_def for_await.simps

lemma show_nat_numeral:
  "show_nat (numeral k) =
     (if (numeral k :: nat) < 10 then [digit_char (numeral k)]
      else show_nat (numeral k div 10) @ [digit_char (numeral k mod 10)])"
  by (rule show_nat.simps)

lemma show_nat_small: "show_nat 0 = ''0''" "show_nat 1 = ''1''" "show_nat (Suc 0) = ''1''"
  by (simp_all add: show_nat.simps digit_char_def)

lemmas text_defs =
  digit_char_def show_nat_numeral show_nat_small show_int_def hex_digit_def hex_byte_def to_hex_def bytes_of_def
  is_sep_def basename_def dirname_def path_join_def is_space_def trim_def

lemmas example_defs =
  bounds_msg_def block_msg_def example_env_def example_world_def example_job_def

lemma pair_fstI: "fst p = a \<Longrightarrow> p = (a, snd p)"
  by (cases p) simp

lemma example_snapshot:
  "snapshot example_env example_world = (Inr example_job, snd (snapshot example_env example_world))"
  by (rule pair_fstI) (simp add: step_defs text_defs example_defs Let_def)

subsection \<open>What the events of the first phases are not\<close>

lemma record_events_quiet:
  assumes "e \<in> set (record_events (path_join dir ''blocks'') m)"
  shows "\<not> is_spawn cmd e \<and> \<not> is_digest_or_upload e \<and>
         \<not> writes_to (path_join dir ''manifest.json'') e"
  using assms
  by (auto simp: record_events_def block_file_def block_path_neq_manifest
      split: option.splits)

lemma map_of_block_writes_other:
  assumes "\<And>k. p \<noteq> block_file dir k"
  shows "map_of (rev (block_writes dir ms)) p = None"
proof -
  have "p \<notin> fst ` set (block_writes dir ms)"
  proof
    assume "p \<in> fst ` set (block_writes dir ms)"
    then obtain k where "p = block_file dir k"
      by (auto simp: block_writes_def)
    with assms show False by blast
  qed
  then show ?thesis
    by (simp add: map_of_eq_None_iff)
qed

lemma manifest_not_block: "manifest_path j \<noteq> block_file (path_join (exportDir j) ''blocks'') k"
  using block_path_neq_manifest [of "exportDir j" "show_int k"]
  by (simp add: manifest_path_def block_file_def)

lemma snapshot_keeps_manifest:
  assumes "snapshot env w = (Inr j, w1)"
  shows "files w1 (manifest_path j) = files w (manifest_path j)"
proof -
  note S = snapshot_ok [OF assms]
  have blocks: "map_of (rev (block_writes (blockExportPath j) (tl (stream_msgs env)))) (manifest_path j) = None"
    unfolding S(2) by (rule map_of_block_writes_other) (rule manifest_not_block)
  have other: "manifest_path j \<noteq> snapshotPath j"
    unfolding S(9) S(8) manifest_path_def by (rule manifest_neq_snapshot)
  show ?thesis
    unfolding S(10) using blocks other
    by (simp add: map_add_def split: option.splits)
qed

text \<open>
  C9. When no bucket is given, a run whose steps up to the digest succeeded reports success
  there and then: it spawns no \<^verbatim>\<open>curl\<close> and writes no manifest file.
\<close>

theorem no_bucket_no_upload:
  assumes "snapshot env w = (Inr j, w1)" and "bucket_of env = []"
  shows "start env w = (Inr (), w1) \<and>
         (\<exists>evs. trace w1 = trace w @ evs \<and>
                (\<forall>e \<in> set evs. \<not> is_spawn ''curl'' e \<and> \<not> writes_to (manifest_path j) e)) \<and>
         files w1 (manifest_path j) = files w (manifest_path j)"
proof -
  note S = snapshot_ok [OF assms(1)]
  have "start env w = (Inr (), w1)"
    using assms by (simp add: start_after_snapshot publish_no_bucket)
  moreover have "\<forall>e \<in> set ([Mkdir (blockExportPath j), Recv (hd (stream_msgs env)),
            ProgressStart (msg_stop (hd (stream_msgs env)) - msg_start (hd (stream_msgs env)) + 1) 0] @
           concat (map (record_events (blockExportPath j)) (tl (stream_msgs env))) @
           [ProgressStop, ClockRead (timestamp j),
            Spawn ''tar'' (zipDir_args (blockExportPath j) (snapshotPath j) []),
            Stat (snapshotPath j), OpenRead (snapshotPath j)]).
          \<not> is_spawn ''curl'' e \<and> \<not> writes_to (manifest_path j) e"
    unfolding S(2) manifest_path_def using record_events_quiet [of _ "exportDir j"]
    by auto
  ultimately show ?thesis
    using S(12) snapshot_keeps_manifest [OF assms(1)] by blast
qed

theorem no_bucket_no_upload_witness:
  "bucket_of (example_env\<lparr>flags_bucket := None\<rparr>) = [] \<and>
   start (example_env\<lparr>flags_bucket := None\<rparr>) example_world =
     (Inr (), snd (snapshot (example_env\<lparr>flags_bucket := None\<rparr>) example_world)) \<and>
   files (snd (snapshot (example_env\<lparr>flags_bucket := None\<rparr>) example_world))
     (manifest_path example_job) = None"
proof -
  have run: "snapshot (example_env\<lparr>flags_bucket := None\<rparr>) example_world =
      (Inr example_job, snd (snapshot (example_env\<lparr>flags_bucket := None\<rparr>) example_world))"
    by (rule pair_fstI) (simp add: step_defs text_defs example_defs Let_def)
  have none: "bucket_of (example_env\<lparr>flags_bucket := None\<rparr>) = []"
    by (simp add: bucket_of_def truthy_string_def trim_def example_env_def)
  have "files example_world (manifest_path example_job) = None"
    by (simp add: example_world_def)
  with no_bucket_no_upload [OF run none] none show ?thesis
    by simp
qed

text \<open>
  C1, as amended. In a run with a bucket that reaches the uploads: when the process of the
  archive upload cannot be spawned, the run fails, no manifest file is written and no second
  upload is attempted. When that process exits, whatever its exit code (the code is never
  looked at), the run goes on to write the manifest file. If that write fails, the run
  fails, without a manifest file and without a second upload. If it succeeds, the manifest
  is on disk and its upload is spawned; the run then reports success when this second
  process exits, whatever its code, and fails when it cannot be spawned.
\<close>

theorem manifest_after_archive_upload:
  assumes "snapshot env w = (Inr j, w1)" and "bucket_of env \<noteq> []"
  shows "(curl_outcome env (archive_upload_args env j w1) = SpawnFailed \<longrightarrow>
            start env w =
              (Inl (SpawnError ''curl''),
               w1\<lparr>clock_reads := Suc (clock_reads w1),
                  trace := trace w1 @ [ClockRead (clock env (clock_reads w1)),
                                       Spawn ''curl'' (archive_upload_args env j w1)]\<rparr>)) \<and>
         (\<forall>code. curl_outcome env (archive_upload_args env j w1) = Exited code \<and>
                 \<not> write_ok env (manifest_path j) \<longrightarrow>
            start env w =
              (Inl (WriteError (manifest_path j)),
               w1\<lparr>clock_reads := Suc (clock_reads w1),
                  trace := trace w1 @ [ClockRead (clock env (clock_reads w1)),
                                       Spawn ''curl'' (archive_upload_args env j w1)]\<rparr>)) \<and>
         (\<forall>code. curl_outcome env (archive_upload_args env j w1) = Exited code \<and>
                 write_ok env (manifest_path j) \<longrightarrow>
            start env w =
              (case curl_outcome env (manifest_upload_args env j w1) of
                 SpawnFailed \<Rightarrow> Inl (SpawnError ''curl'')
               | Exited c \<Rightarrow> Inr (),
               w1\<lparr>clock_reads := Suc (Suc (clock_reads w1)),
                  files := (files w1)(manifest_path j \<mapsto> bytes_of (JSON_stringify (manifest_of j))),
                  trace := trace w1 @
                    [ClockRead (clock env (clock_reads w1)),
                     Spawn ''curl'' (archive_upload_args env j w1),
                     WriteFile (manifest_path j) (bytes_of (JSON_stringify (manifest_of j))),
                     ClockRead (clock env (Suc (clock_reads w1))),
                     Spawn ''curl'' (manifest_upload_args env j w1)]\<rparr>))"
proof (intro conjI impI allI)
  assume failed: "curl_outcome env (archive_upload_args env j w1) = SpawnFailed"
  show "start env w =
      (Inl (SpawnError ''curl''),
       w1\<lparr>clock_reads := Suc (clock_reads w1),
          trace := trace w1 @ [ClockRead (clock env (clock_reads w1)),
                               Spawn ''curl'' (archive_upload_args env j w1)]\<rparr>)"
    unfolding start_after_snapshot [OF assms(1)]
    using assms(2) failed by (rule publish_spawn_failed)
next
  fix code
  assume "curl_outcome env (archive_upload_args env j w1) = Exited code \<and>
          \<not> write_ok env (manifest_path j)"
  then have exited: "curl_outcome env (archive_upload_args env j w1) = Exited code"
    and refused: "\<not> write_ok env (manifest_path j)"
    by simp_all
  show "start env w =
      (Inl (WriteError (manifest_path j)),
       w1\<lparr>clock_reads := Suc (clock_reads w1),
          trace := trace w1 @ [ClockRead (clock env (clock_reads w1)),
                               Spawn ''curl'' (archive_upload_args env j w1)]\<rparr>)"
    unfolding start_after_snapshot [OF assms(1)]
    using assms(2) exited refused by (rule publish_write_failed)
next
  fix code
  assume "curl_outcome env (archive_upload_args env j w1) = Exited code \<and>
          write_ok env (manifest_path j)"
  then have exited: "curl_outcome env (archive_upload_args env j w1) = Exited code"
    and ok: "write_ok env (manifest_path j)"
    by simp_all
  show "start env w =
      (case curl_outcome env (manifest_upload_args env j w1) of
         SpawnFailed \<Rightarrow> Inl (SpawnError ''curl'')
       | Exited c \<Rightarrow> Inr (),
       w1\<lparr>clock_reads := Suc (Suc (clock_reads w1)),
          files := (files w1)(manifest_path j \<mapsto> bytes_of (JSON_stringify (manifest_of j))),
          trace := trace w1 @
            [ClockRead (clock env (clock_reads w1)),
             Spawn ''curl'' (archive_upload_args env j w1),
             WriteFile (manifest_path j) (bytes_of (JSON_stringify (manifest_of j))),
             ClockRead (clock env (Suc (clock_reads w1))),
             Spawn ''curl'' (manifest_upload_args env j w1)]\<rparr>)"
    unfolding start_after_snapshot [OF assms(1)]
    using assms(2) exited ok by (rule publish_exited)
qed

text \<open>
  The three cases on the example run: nothing fails; \<^verbatim>\<open>curl\<close> cannot be spawned; the
  manifest file cannot be written.
\<close>

theorem manifest_after_archive_upload_witness:
  "bucket_of example_env \<noteq> [] \<and>
   fst (start example_env example_world) = Inr () \<and>
   files (snd (start example_env example_world)) (manifest_path example_job) =
     Some (bytes_of (JSON_stringify (manifest_of example_job))) \<and>
   bucket_of curl_missing_env \<noteq> [] \<and>
   fst (start curl_missing_env example_world) = Inl (SpawnError ''curl'') \<and>
   files (snd (start curl_missing_env example_world)) (manifest_path example_job) = None \<and>
   bucket_of manifest_unwritable_env \<noteq> [] \<and>
   fst (start manifest_unwritable_env example_world) =
     Inl (WriteError ''/tmp/snap/manifest.json'') \<and>
   files (snd (start manifest_unwritable_env example_world)) (manifest_path example_job) = None"
proof -
  let ?w1 = "snd (snapshot example_env example_world)"
  let ?w2 = "snd (snapshot curl_missing_env example_world)"
  let ?w3 = "snd (snapshot manifest_unwritable_env example_world)"
  have path: "manifest_path example_job = ''/tmp/snap/manifest.json''"
    by (simp add: manifest_path_def path_join_def example_job_def)
  have fresh: "files example_world (manifest_path example_job) = None"
    by (simp add: example_world_def)
  have bucket1: "bucket_of example_env \<noteq> []"
    by (simp add: bucket_of_def truthy_string_def trim_def is_space_def example_env_def)
  have exits1: "curl_outcome example_env args = Exited (Some 0)" for args
    by (simp add: example_env_def)
  have ok1: "write_ok example_env (manifest_path example_job)"
    by (simp add: example_env_def)
  note T1 = manifest_after_archive_upload [OF example_snapshot bucket1]
  note c1 = T1 [THEN conjunct2, THEN conjunct2, rule_format, OF conjI [OF exits1 ok1]]
  have s1: "fst (start example_env example_world) = Inr ()"
    unfolding c1 by (simp only: exits1 proc_outcome.case fst_conv)
  have f1: "files (snd (start example_env example_world)) (manifest_path example_job) =
      Some (bytes_of (JSON_stringify (manifest_of example_job)))"
    unfolding c1 by simp
  have run2: "snapshot curl_missing_env example_world = (Inr example_job, ?w2)"
    by (rule pair_fstI)
       (simp add: step_defs text_defs example_defs curl_missing_env_def Let_def)
  have bucket2: "bucket_of curl_missing_env \<noteq> []"
    by (simp add: bucket_of_def truthy_string_def trim_def is_space_def example_env_def
          curl_missing_env_def)
  have failed2: "curl_outcome curl_missing_env args = SpawnFailed" for args
    by (simp add: curl_missing_env_def)
  note T2 = manifest_after_archive_upload [OF run2 bucket2]
  note c2 = T2 [THEN conjunct1, rule_format, OF failed2]
  have s2: "fst (start curl_missing_env example_world) = Inl (SpawnError ''curl'')"
    unfolding c2 by (simp only: fst_conv)
  have f2: "files (snd (start curl_missing_env example_world)) (manifest_path example_job) = None"
    unfolding c2 using snapshot_keeps_manifest [OF run2] fresh by simp
  have run3: "snapshot manifest_unwritable_env example_world = (Inr example_job, ?w3)"
    by (rule pair_fstI)
       (simp add: step_defs text_defs example_defs manifest_unwritable_env_def Let_def)
  have bucket3: "bucket_of manifest_unwritable_env \<noteq> []"
    by (simp add: bucket_of_def truthy_string_def trim_def is_space_def example_env_def
          manifest_unwritable_env_def)
  have exits3: "curl_outcome manifest_unwritable_env args = Exited (Some 0)" for args
    by (simp add: manifest_unwritable_env_def example_env_def)
  have refused3: "\<not> write_ok manifest_unwritable_env (manifest_path example_job)"
    unfolding path by (simp add: manifest_unwritable_env_def)
  note T3 = manifest_after_archive_upload [OF run3 bucket3]
  note c3 = T3 [THEN conjunct2, THEN conjunct1, rule_format, OF conjI [OF exits3 refused3]]
  have s3: "fst (start manifest_unwritable_env example_world) =
      Inl (WriteError ''/tmp/snap/manifest.json'')"
    unfolding c3 by (simp only: fst_conv path)
  have f3: "files (snd (start manifest_unwritable_env example_world))
      (manifest_path example_job) = None"
    unfolding c3 using snapshot_keeps_manifest [OF run3] fresh by simp
  from bucket1 s1 f1 bucket2 s2 f2 bucket3 s3 f3 show ?thesis
    by blast
qed

text \<open>
  The claim as stated fails: the upload of the archive exits with the status 22, and the run
  writes the manifest, uploads it and reports success.
\<close>

theorem manifest_after_archive_upload_counterexample:
  "curl_outcome rejected_upload_env
     [''-X'', ''PUT'', ''-T'', ''/tmp/snap/ironfish_snapshot_1650000000000.tar.gz'',
      ''-H'', ''Host: bucket.example.org'', ''-H'', ''Date: 1650000000001'',
      ''-H'', ''Content-Type: application/x-compressed-tar'',
      ''-H'', ''x-amz-acl: bucket-owner-full-control'',
      ''https://bucket.example.org/ironfish_snapshot_1650000000000.tar.gz''] = Exited (Some 22) \<and>
   fst (start rejected_upload_env example_world) = Inr () \<and>
   files (snd (start rejected_upload_env example_world)) ''/tmp/snap/manifest.json'' =
     Some (bytes_of (JSON_stringify (manifest_of example_job))) \<and>
   drop 17 (trace (snd (start rejected_upload_env example_world))) =
     [ClockRead 1650000000001,
      Spawn ''curl''
       [''-X'', ''PUT'', ''-T'', ''/tmp/snap/ironfish_snapshot_1650000000000.tar.gz'',
        ''-H'', ''Host: bucket.example.org'', ''-H'', ''Date: 1650000000001'',
        ''-H'', ''Content-Type: application/x-compressed-tar'',
        ''-H'', ''x-amz-acl: bucket-owner-full-control'',
        ''https://bucket.example.org/ironfish_snapshot_1650000000000.tar.gz''],
      WriteFile ''/tmp/snap/manifest.json'' (bytes_of (JSON_stringify (manifest_of example_job))),
      ClockRead 1650000000002,
      Spawn ''curl''
       [''-X'', ''PUT'', ''-T'', ''/tmp/snap/manifest.json'',
        ''-H'', ''Host: bucket.example.org'', ''-H'', ''Date: 1650000000002'',
        ''-H'', ''Content-Type: application/json'',
        ''-H'', ''x-amz-acl: bucket-owner-full-control'',
        ''https://bucket.example.org/manifest.json'']]"
proof -
  let ?w1 = "snd (snapshot rejected_upload_env example_world)"
  have run: "snapshot rejected_upload_env example_world = (Inr example_job, ?w1)"
    by (rule pair_fstI)
       (simp add: step_defs text_defs example_defs rejected_upload_env_def Let_def)
  note S = snapshot_ok [OF run]
  have reads: "clock_reads ?w1 = 1"
    using S(13) by (simp add: example_world_def)
  have len: "length (trace ?w1) = 17"
    unfolding S(12)
    by (simp add: example_defs rejected_upload_env_def record_events_def writable_def)
  have bucket: "bucket_of rejected_upload_env = ''bucket.example.org''"
    by (simp add: bucket_of_def truthy_string_def trim_def is_space_def example_env_def
          rejected_upload_env_def)
  have outside: "toISOString rejected_upload_env = show_int"
    "clock rejected_upload_env n = 1650000000000 + int n"
    "write_ok rejected_upload_env p" for n p
    by (simp_all add: rejected_upload_env_def example_env_def)
  have job: "snapshotPath example_job = ''/tmp/snap/ironfish_snapshot_1650000000000.tar.gz''"
    "exportDir example_job = ''/tmp/snap''"
    by (simp_all add: example_job_def)
  have a1: "archive_upload_args rejected_upload_env example_job ?w1 =
     [''-X'', ''PUT'', ''-T'', ''/tmp/snap/ironfish_snapshot_1650000000000.tar.gz'',
      ''-H'', ''Host: bucket.example.org'', ''-H'', ''Date: 1650000000001'',
      ''-H'', ''Content-Type: application/x-compressed-tar'',
      ''-H'', ''x-amz-acl: bucket-owner-full-control'',
      ''https://bucket.example.org/ironfish_snapshot_1650000000000.tar.gz'']"
    by (simp add: archive_upload_args_def uploadToBucket_args_def reads bucket outside job
          text_defs Let_def)
  have a2: "manifest_upload_args rejected_upload_env example_job ?w1 =
     [''-X'', ''PUT'', ''-T'', ''/tmp/snap/manifest.json'',
      ''-H'', ''Host: bucket.example.org'', ''-H'', ''Date: 1650000000002'',
      ''-H'', ''Content-Type: application/json'',
      ''-H'', ''x-amz-acl: bucket-owner-full-control'',
      ''https://bucket.example.org/manifest.json'']"
    by (simp add: manifest_upload_args_def manifest_path_def uploadToBucket_args_def reads bucket
          outside job text_defs Let_def)
  have path: "manifest_path example_job = ''/tmp/snap/manifest.json''"
    by (simp add: manifest_path_def path_join_def job)
  have o1: "curl_outcome rejected_upload_env
      (archive_upload_args rejected_upload_env example_job ?w1) = Exited (Some 22)"
    unfolding a1 by (simp add: rejected_upload_env_def)
  have o2: "curl_outcome rejected_upload_env
      (manifest_upload_args rejected_upload_env example_job ?w1) = Exited (Some 0)"
    unfolding a2 by (simp add: rejected_upload_env_def)
  have ok: "write_ok rejected_upload_env (manifest_path example_job)"
    by (rule outside)
  have nonempty: "bucket_of rejected_upload_env \<noteq> []"
    by (simp add: bucket)
  have "start rejected_upload_env example_world = publish rejected_upload_env example_job ?w1"
    using run by (rule start_after_snapshot)
  also note publish_exited [OF nonempty o1 ok]
  finally have "start rejected_upload_env example_world =
      (Inr (),
       ?w1\<lparr>clock_reads := Suc (Suc (clock_reads ?w1)),
          files := (files ?w1)(manifest_path example_job \<mapsto>
                      bytes_of (JSON_stringify (manifest_of example_job))),
          trace := trace ?w1 @
            [ClockRead (clock rejected_upload_env (clock_reads ?w1)),
             Spawn ''curl'' (archive_upload_args rejected_upload_env example_job ?w1),
             WriteFile (manifest_path example_job)
               (bytes_of (JSON_stringify (manifest_of example_job))),
             ClockRead (clock rejected_upload_env (Suc (clock_reads ?w1))),
             Spawn ''curl'' (manifest_upload_args rejected_upload_env example_job ?w1)]\<rparr>)"
    by (simp only: o2 proc_outcome.case)
  then show ?thesis
    using o1 len by (simp add: a1 a2 path reads outside)
qed

subsection \<open>Steps that only append to the trace\<close>

lemma addsI:
  assumes "\<And>w. \<exists>evs. trace (snd (m w)) = trace w @ evs \<and> list_all P evs"
  shows "adds P m"
  using assms by (simp add: adds_def)

lemma addsD: "adds P m \<Longrightarrow> \<exists>evs. trace (snd (m w)) = trace w @ evs \<and> list_all P evs"
  by (simp add: adds_def)

lemma adds_return: "adds P (return x)"
  by (simp add: adds_def return_def)

lemma adds_throw: "adds P (throw e)"
  by (simp add: adds_def throw_def)

lemma adds_emit: "P e \<Longrightarrow> adds P (emit e)"
  by (simp add: adds_def emit_def)

lemma adds_and_then:
  assumes m: "adds P m" and f: "\<And>x. adds P (f x)"
  shows "adds P (and_then m f)"
proof (rule addsI)
  fix w
  from addsD [OF m, of w] obtain evs where
    1: "trace (snd (m w)) = trace w @ evs" and p1: "list_all P evs"
    by blast
  show "\<exists>evs. trace (snd (and_then m f w)) = trace w @ evs \<and> list_all P evs"
  proof (cases "m w")
    case (Pair r w1)
    show ?thesis
    proof (cases r)
      case (Inl e)
      with Pair 1 p1 show ?thesis
        by (auto simp: and_then_def)
    next
      case (Inr x)
      from addsD [OF f, of x w1] obtain evs' where
        2: "trace (snd (f x w1)) = trace w1 @ evs'" and p2: "list_all P evs'"
        by blast
      from Pair Inr have "and_then m f w = f x w1"
        by (simp add: and_then_def)
      with 1 2 Pair have "trace (snd (and_then m f w)) = trace w @ (evs @ evs')"
        by simp
      moreover from p1 p2 have "list_all P (evs @ evs')" by simp
      ultimately show ?thesis by blast
    qed
  qed
qed

lemma adds_and_then_fails:
  assumes m: "adds P m" and "fails m"
  shows "adds P (and_then m f)"
proof -
  have "and_then m f w = (fst (and_then m f w), snd (m w))" for w
    using assms(2) [unfolded fails_def, rule_format, of w]
    by (cases "m w") (auto simp: and_then_def)
  then have "snd (and_then m f w) = snd (m w)" for w
    by (metis snd_conv)
  with m show ?thesis by (simp add: adds_def)
qed

lemma adds_mono: "adds P m \<Longrightarrow> (\<And>e. P e \<Longrightarrow> Q e) \<Longrightarrow> adds Q m"
  unfolding adds_def by (meson list.pred_mono_strong)

lemma fails_throw: "fails (throw e)"
  by (simp add: fails_def throw_def)

lemma fails_and_then_left: "fails m \<Longrightarrow> fails (and_then m f)"
  unfolding fails_def and_then_def
  by (metis (mono_tags, lifting) fst_conv old.prod.case old.sum.simps(5) prod.collapse)

lemma fails_and_then_right:
  assumes "\<And>x. fails (f x)"
  shows "fails (and_then m f)"
proof -
  have "\<exists>e. fst (and_then m f w) = Inl e" for w
  proof (cases "m w")
    case (Pair r w1)
    show ?thesis
    proof (cases r)
      case (Inl e)
      with Pair show ?thesis by (simp add: and_then_def)
    next
      case (Inr x)
      with Pair assms [of x] show ?thesis
        by (simp add: and_then_def fails_def)
    qed
  qed
  then show ?thesis by (simp add: fails_def)
qed


lemma and_then_extends:
  assumes "\<And>x. adds P (f x)"
  shows "\<exists>evs. trace (snd (and_then m f w)) = trace (snd (m w)) @ evs"
proof (cases "m w")
  case (Pair r w1)
  show ?thesis
  proof (cases r)
    case (Inl e)
    with Pair show ?thesis by (simp add: and_then_def)
  next
    case (Inr x)
    from addsD [OF assms, of x w1] obtain evs where "trace (snd (f x w1)) = trace w1 @ evs"
      by blast
    with Pair Inr show ?thesis by (simp add: and_then_def)
  qed
qed

subsection \<open>What each phase adds\<close>

lemma adds_prepare_dir: "adds before_archive (prepare_dir env)"
  unfolding prepare_dir_def mkdir_def Let_def
  by (intro adds_and_then)
     (auto intro: adds_return adds_throw adds_emit split: option.splits)

lemma adds_for_await: "adds before_archive (for_await env dir ms)"
proof (induction ms)
  case Nil
  show ?case
    by (rule addsI) (simp add: throw_def return_def)
next
  case (Cons m ms)
  show ?case
  proof (rule addsI)
    fix w
    show "\<exists>evs. trace (snd (for_await env dir (m # ms) w)) = trace w @ evs \<and>
                list_all before_archive evs"
    proof (cases "writable m")
      case None
      let ?W = "w\<lparr>channel := ms, trace := trace w @ [Recv m]\<rparr>"
      from addsD [OF Cons.IH, of ?W] obtain evs where
        "trace (snd (for_await env dir ms ?W)) = trace ?W @ evs" and "list_all before_archive evs"
        by blast
      then have "trace (snd (for_await env dir (m # ms) w)) = trace w @ (Recv m # evs) \<and>
                 list_all before_archive (Recv m # evs)"
        by (simp add: for_await_skip [OF None])
      then show ?thesis by blast
    next
      case (Some kb)
      obtain k b where "kb = (k, b)" by (cases kb)
      with Some have wr: "writable m = Some (k, b)" by simp
      show ?thesis
      proof (cases "write_ok env (block_file dir k)")
        case True
        let ?W = "w\<lparr>channel := ms, files := (files w)(block_file dir k \<mapsto> b),
                     trace := trace w @ [Recv m, WriteFile (block_file dir k) b, ProgressUpdate k]\<rparr>"
        from addsD [OF Cons.IH, of ?W] obtain evs where
          "trace (snd (for_await env dir ms ?W)) = trace ?W @ evs" and "list_all before_archive evs"
          by blast
        then have "trace (snd (for_await env dir (m # ms) w)) =
                     trace w @ (Recv m # WriteFile (block_file dir k) b # ProgressUpdate k # evs) \<and>
                   list_all before_archive
                     (Recv m # WriteFile (block_file dir k) b # ProgressUpdate k # evs)"
          using True by (simp add: for_await_write [OF wr])
        then show ?thesis by blast
      next
        case False
        then have "trace (snd (for_await env dir (m # ms) w)) = trace w @ [Recv m] \<and>
                   list_all before_archive [Recv m]"
          by (simp add: for_await_write [OF wr])
        then show ?thesis by blast
      qed
    qed
  qed
qed

lemma adds_first: "adds before_archive (first env)"
  by (rule addsI) (simp add: first_def throw_def split: list.splits)

lemma adds_snapshotChainStream: "adds P (snapshotChainStream env)"
  by (rule addsI) (simp add: snapshotChainStream_def)

lemma adds_loop: "adds before_archive (\<lambda>w. for_await env dir (channel w) w)"
proof (rule addsI)
  fix w
  from addsD [OF adds_for_await, of env dir "channel w" w]
  show "\<exists>evs. trace (snd (for_await env dir (channel w) w)) = trace w @ evs \<and>
              list_all before_archive evs" .
qed

lemma adds_stream_blocks: "adds before_archive (stream_blocks env dir)"
  unfolding stream_blocks_def connectRpc_def Let_def
  by (intro adds_and_then adds_first adds_snapshotChainStream adds_loop)
     (auto intro: adds_return adds_throw adds_emit)

lemma adds_date_now: "(\<And>t. P (ClockRead t)) \<Longrightarrow> adds P (date_now env)"
  by (rule addsI) (simp add: date_now_def Let_def)

lemma adds_tar_writes: "adds P (tar_writes env dest)"
  by (rule addsI) (simp add: tar_writes_def)

lemma adds_writeFile: "(\<And>content. P (WriteFile p content)) \<Longrightarrow> adds P (writeFile env p content)"
  by (rule addsI) (simp add: writeFile_def)

lemma adds_any_zipDir: "adds (\<lambda>e. True) (zipDir env source dest excludes)"
  unfolding zipDir_def
  by (intro adds_and_then)
     (auto intro: adds_return adds_throw adds_emit adds_tar_writes adds_and_then
           split: proc_outcome.splits)

lemma adds_any_stat_size: "adds (\<lambda>e. True) (stat_size p)"
  by (rule addsI)
     (simp add: stat_size_def and_then_def emit_def throw_def return_def split: option.splits)

lemma adds_any_digest: "adds (\<lambda>e. True) (digest env p)"
  by (rule addsI)
     (simp add: digest_def createReadStream_def and_then_def emit_def throw_def return_def
        Let_def split: option.splits)

lemma adds_any_uploadToBucket: "adds (\<lambda>e. True) (uploadToBucket env dest host contentType)"
  by (rule addsI) (simp add: uploadToBucket_run)

lemma adds_any_publish: "adds (\<lambda>e. True) (publish env j)"
  unfolding publish_def Let_def
  by (auto intro!: adds_and_then adds_any_uploadToBucket adds_writeFile adds_return)

subsection \<open>Phases that fail\<close>

lemma fails_for_await:
  assumes "stream_end env = StreamThrows"
  shows "fails (for_await env dir ms)"
proof (induction ms)
  case Nil
  from assms show ?case by (simp add: fails_def throw_def)
next
  case (Cons m ms)
  have "\<exists>e. fst (for_await env dir (m # ms) w) = Inl e" for w
  proof (cases "writable m")
    case None
    with Cons.IH show ?thesis
      by (simp add: for_await_skip fails_def)
  next
    case (Some kb)
    obtain k b where "kb = (k, b)" by (cases kb)
    with Some have "writable m = Some (k, b)" by simp
    with Cons.IH show ?thesis
      by (simp add: for_await_write fails_def)
  qed
  then show ?case by (simp add: fails_def)
qed

lemma fails_stream_blocks:
  assumes "stream_end env = StreamThrows"
  shows "fails (stream_blocks env dir)"
proof -
  have "fails (\<lambda>w. for_await env dir (channel w) w)"
    using fails_for_await [OF assms] by (simp add: fails_def)
  then show ?thesis
    unfolding stream_blocks_def Let_def
    by (intro fails_and_then_right fails_and_then_left)
qed

lemma fails_zipDir:
  assumes "tar_outcome env = SpawnFailed"
  shows "fails (zipDir env source dest excludes)"
  unfolding zipDir_def using assms
  by (intro fails_and_then_right) (simp add: fails_throw)

lemma adds_failed_zipDir:
  assumes "tar_outcome env = SpawnFailed"
  shows "adds (\<lambda>e. \<not> is_digest_or_upload e) (zipDir env source dest excludes)"
  unfolding zipDir_def using assms
  by (intro adds_and_then) (auto intro: adds_emit adds_throw)

lemma fails_archive:
  assumes "tar_outcome env = SpawnFailed"
  shows "fails (archive env dir blocks)"
  unfolding archive_def Let_def
  by (intro fails_and_then_right fails_and_then_left fails_zipDir assms)

lemma adds_failed_archive:
  assumes "tar_outcome env = SpawnFailed"
  shows "adds (\<lambda>e. \<not> is_digest_or_upload e) (archive env dir blocks)"
  unfolding archive_def Let_def
  by (intro adds_and_then adds_and_then_fails adds_date_now adds_failed_zipDir fails_zipDir assms)
     simp

lemma before_archive_quiet:
  "before_archive e \<Longrightarrow> \<not> is_digest_or_upload e" "before_archive e \<Longrightarrow> \<not> is_spawn cmd e"
  by (cases e; simp)+


lemma fails_snapshot_tar:
  assumes "tar_outcome env = SpawnFailed"
  shows "fails (snapshot env)"
  unfolding snapshot_def case_prod_beta
  by (intro fails_and_then_right fails_and_then_left fails_archive assms)

lemma adds_snapshot_tar:
  assumes "tar_outcome env = SpawnFailed"
  shows "adds (\<lambda>e. \<not> is_digest_or_upload e) (snapshot env)"
  unfolding snapshot_def case_prod_beta
  by (intro adds_and_then adds_and_then_fails adds_failed_archive fails_archive assms
        adds_mono [OF adds_prepare_dir] adds_mono [OF adds_stream_blocks])
     (simp_all add: before_archive_quiet)

lemma fails_snapshot_stream:
  assumes "stream_end env = StreamThrows"
  shows "fails (snapshot env)"
  unfolding snapshot_def case_prod_beta
  by (intro fails_and_then_right fails_and_then_left fails_stream_blocks assms)

lemma adds_snapshot_stream:
  assumes "stream_end env = StreamThrows"
  shows "adds before_archive (snapshot env)"
  unfolding snapshot_def case_prod_beta
  by (intro adds_and_then adds_and_then_fails adds_prepare_dir adds_stream_blocks
        fails_stream_blocks assms)

subsection \<open>The exit code of tar is not looked at\<close>

lemma steps_tar_outcome:
  "writeFile (env\<lparr>tar_outcome := out\<rparr>) = writeFile env"
  "connectRpc (env\<lparr>tar_outcome := out\<rparr>) = connectRpc env"
  "snapshotChainStream (env\<lparr>tar_outcome := out\<rparr>) = snapshotChainStream env"
  "first (env\<lparr>tar_outcome := out\<rparr>) = first env"
  "date_now (env\<lparr>tar_outcome := out\<rparr>) = date_now env"
  "mkdir (env\<lparr>tar_outcome := out\<rparr>) = mkdir env"
  "createReadStream (env\<lparr>tar_outcome := out\<rparr>) = createReadStream env"
  "hasher_digest (env\<lparr>tar_outcome := out\<rparr>) = hasher_digest env"
  "tar_writes (env\<lparr>tar_outcome := out\<rparr>) = tar_writes env"
  "bucket_of (env\<lparr>tar_outcome := out\<rparr>) = bucket_of env"
  by (simp_all add: fun_eq_iff writeFile_def connectRpc_def snapshotChainStream_def first_def
        date_now_def mkdir_def createReadStream_def hasher_digest_def tar_writes_def
        bucket_of_def cong: if_cong option.case_cong)

lemma for_await_tar_outcome:
  "for_await (env\<lparr>tar_outcome := out\<rparr>) dir ms = for_await env dir ms"
proof (induction ms)
  case Nil
  show ?case by (rule ext) simp
next
  case (Cons m ms)
  show ?case
    by (rule ext) (simp add: for_await.simps Cons.IH steps_tar_outcome Let_def cong: if_cong)
qed

lemma zipDir_exit_code_discarded:
  assumes "tar_outcome env = Exited code"
  shows "and_then (zipDir (env\<lparr>tar_outcome := Exited code'\<rparr>) source dest excludes) (\<lambda>_. k) =
         and_then (zipDir env source dest excludes) (\<lambda>_. k)"
proof -
  have "zipDir (env\<lparr>tar_outcome := Exited code'\<rparr>) source dest excludes =
        and_then (emit (Spawn ''tar'' (zipDir_args source dest excludes)))
          (\<lambda>_. and_then (tar_writes env dest) (\<lambda>_. return code'))"
    by (simp add: zipDir_def steps_tar_outcome)
  moreover have "zipDir env source dest excludes =
        and_then (emit (Spawn ''tar'' (zipDir_args source dest excludes)))
          (\<lambda>_. and_then (tar_writes env dest) (\<lambda>_. return code))"
    using assms by (simp add: zipDir_def)
  ultimately show ?thesis
    by (simp add: fun_eq_iff and_then_def return_def split: prod.splits sum.splits)
qed

lemma snapshot_tar_exit_code:
  assumes "tar_outcome env = Exited code"
  shows "snapshot (env\<lparr>tar_outcome := Exited code'\<rparr>) = snapshot env"
proof -
  have "archive (env\<lparr>tar_outcome := Exited code'\<rparr>) dir blocks = archive env dir blocks"
    for dir blocks
    by (simp add: archive_def steps_tar_outcome Let_def zipDir_exit_code_discarded [OF assms])
  then show ?thesis
    by (simp add: snapshot_def prepare_dir_def stream_blocks_def digest_def
          steps_tar_outcome for_await_tar_outcome Let_def cong: if_cong option.case_cong)
qed

lemma publish_tar_outcome: "publish (env\<lparr>tar_outcome := out\<rparr>) = publish env"
  by (rule ext) (simp add: publish_def uploadToBucket_def steps_tar_outcome Let_def
        cong: if_cong proc_outcome.case_cong)

text \<open>
  C2, as amended. When \<^verbatim>\<open>tar\<close> cannot be spawned the run fails, and no later step
  happens: no \<^verbatim>\<open>stat\<close>, no reading of the archive for the digest, no upload. When
  \<^verbatim>\<open>tar\<close> exits, its exit code is never looked at: the run is, in its result and in
  the state it leaves, the run after the exit code 0 in the same surroundings.
\<close>

theorem tar_spawn_failure_fails_job:
  "(tar_outcome env = SpawnFailed \<longrightarrow>
      (\<exists>e. fst (start env w) = Inl e) \<and>
      (\<exists>evs. trace (snd (start env w)) = trace w @ evs \<and>
             (\<forall>e \<in> set evs. \<not> is_digest_or_upload e))) \<and>
   (\<forall>code. tar_outcome env = Exited code \<longrightarrow>
      start env w = start (env\<lparr>tar_outcome := Exited (Some 0)\<rparr>) w)"
proof (intro conjI impI allI)
  assume failed: "tar_outcome env = SpawnFailed"
  have "fails (start env)"
    unfolding start_def by (intro fails_and_then_left fails_snapshot_tar failed)
  then show "\<exists>e. fst (start env w) = Inl e"
    by (simp add: fails_def)
  have "adds (\<lambda>e. \<not> is_digest_or_upload e) (start env)"
    unfolding start_def
    by (intro adds_and_then_fails adds_snapshot_tar fails_snapshot_tar failed)
  from addsD [OF this, of w]
  show "\<exists>evs. trace (snd (start env w)) = trace w @ evs \<and>
             (\<forall>e \<in> set evs. \<not> is_digest_or_upload e)"
    by (simp add: list_all_iff)
next
  fix code
  assume "tar_outcome env = Exited code"
  then show "start env w = start (env\<lparr>tar_outcome := Exited (Some 0)\<rparr>) w"
    by (simp add: start_def snapshot_tar_exit_code publish_tar_outcome)
qed


theorem tar_spawn_failure_fails_job_witness:
  "tar_outcome tar_missing_env = SpawnFailed \<and>
   (\<exists>e. fst (start tar_missing_env example_world) = Inl e) \<and>
   tar_outcome tar_partial_env = Exited (Some 2) \<and>
   start tar_partial_env example_world =
     start (tar_partial_env\<lparr>tar_outcome := Exited (Some 0)\<rparr>) example_world"
proof -
  have missing: "tar_outcome tar_missing_env = SpawnFailed"
    by (simp add: tar_missing_env_def)
  have partial: "tar_outcome tar_partial_env = Exited (Some 2)"
    by (simp add: tar_partial_env_def)
  from tar_spawn_failure_fails_job [of tar_missing_env example_world] missing
  have "\<exists>e. fst (start tar_missing_env example_world) = Inl e"
    by blast
  moreover from tar_spawn_failure_fails_job [of tar_partial_env example_world] partial
  have "start tar_partial_env example_world =
     start (tar_partial_env\<lparr>tar_outcome := Exited (Some 0)\<rparr>) example_world"
    by blast
  ultimately show ?thesis
    using missing partial by blast
qed

text \<open>
  The claim as stated fails: \<^verbatim>\<open>tar\<close> exits with the status 2 and leaves two bytes
  of archive; the run reads them for the digest, uploads them and the manifest, and reports
  success.
\<close>

theorem tar_spawn_failure_fails_job_counterexample:
  "tar_outcome tar_partial_env = Exited (Some 2) \<and>
   fst (start tar_partial_env example_world) = Inr () \<and>
   OpenRead ''/tmp/snap/ironfish_snapshot_1650000000000.tar.gz''
     \<in> set (trace (snd (start tar_partial_env example_world))) \<and>
   Spawn ''curl''
     [''-X'', ''PUT'', ''-T'', ''/tmp/snap/ironfish_snapshot_1650000000000.tar.gz'',
      ''-H'', ''Host: bucket.example.org'', ''-H'', ''Date: 1650000000001'',
      ''-H'', ''Content-Type: application/x-compressed-tar'',
      ''-H'', ''x-amz-acl: bucket-owner-full-control'',
      ''https://bucket.example.org/ironfish_snapshot_1650000000000.tar.gz'']
     \<in> set (trace (snd (start tar_partial_env example_world)))"
proof -
  let ?j = "example_job\<lparr>fileSize := 2, checksum := ''ab02''\<rparr>"
  let ?w1 = "snd (snapshot tar_partial_env example_world)"
  have run: "snapshot tar_partial_env example_world = (Inr ?j, ?w1)"
    by (rule pair_fstI)
       (simp add: step_defs text_defs example_defs tar_partial_env_def Let_def)
  note S = snapshot_ok [OF run]
  have reads: "clock_reads ?w1 = 1"
    using S(13) by (simp add: example_world_def)
  have outside: "toISOString tar_partial_env = show_int"
    "clock tar_partial_env n = 1650000000000 + int n"
    "write_ok tar_partial_env p" "curl_outcome tar_partial_env args = Exited (Some 0)"
    "tar_outcome tar_partial_env = Exited (Some 2)" for n p args
    by (simp_all add: tar_partial_env_def example_env_def)
  have job: "snapshotPath ?j = ''/tmp/snap/ironfish_snapshot_1650000000000.tar.gz''"
    by (simp add: example_job_def)
  have bucket: "bucket_of tar_partial_env = ''bucket.example.org''"
    by (simp add: bucket_of_def truthy_string_def trim_def is_space_def example_env_def
          tar_partial_env_def)
  have a1: "archive_upload_args tar_partial_env ?j ?w1 =
     [''-X'', ''PUT'', ''-T'', ''/tmp/snap/ironfish_snapshot_1650000000000.tar.gz'',
      ''-H'', ''Host: bucket.example.org'', ''-H'', ''Date: 1650000000001'',
      ''-H'', ''Content-Type: application/x-compressed-tar'',
      ''-H'', ''x-amz-acl: bucket-owner-full-control'',
      ''https://bucket.example.org/ironfish_snapshot_1650000000000.tar.gz'']"
    by (simp add: archive_upload_args_def uploadToBucket_args_def reads bucket outside job
          text_defs Let_def)
  have nonempty: "bucket_of tar_partial_env \<noteq> []"
    by (simp add: bucket)
  have "start tar_partial_env example_world = publish tar_partial_env ?j ?w1"
    using run by (rule start_after_snapshot)
  also note publish_exited [OF nonempty outside(4) outside(3)]
  finally have "start tar_partial_env example_world =
      (Inr (),
       ?w1\<lparr>clock_reads := Suc (Suc (clock_reads ?w1)),
          files := (files ?w1)(manifest_path ?j \<mapsto> bytes_of (JSON_stringify (manifest_of ?j))),
          trace := trace ?w1 @
            [ClockRead (clock tar_partial_env (clock_reads ?w1)),
             Spawn ''curl'' (archive_upload_args tar_partial_env ?j ?w1),
             WriteFile (manifest_path ?j) (bytes_of (JSON_stringify (manifest_of ?j))),
             ClockRead (clock tar_partial_env (Suc (clock_reads ?w1))),
             Spawn ''curl'' (manifest_upload_args tar_partial_env ?j ?w1)]\<rparr>)"
    by (simp only: outside(4) proc_outcome.case)
  then show ?thesis
    using S(12) by (simp add: a1 job outside(5))
qed

subsection \<open>Phases that succeed\<close>

lemma prepare_dir_total:
  assumes "mkdir_ok env" and "truthy_string (flags_path env) \<or> mkdtemp env \<noteq> None"
  shows "prepare_dir env w =
         (Inr (chosen_dir env, path_join (chosen_dir env) ''blocks''),
          w\<lparr>trace := trace w @ [Mkdir (path_join (chosen_dir env) ''blocks'')]\<rparr>)"
  using assms
  by (auto simp: prepare_dir_def chosen_dir_def mkdir_def and_then_def return_def emit_def
        Let_def split: option.splits)

lemma for_await_total:
  assumes "stream_end env = StreamClosed" and "\<And>p. write_ok env p"
  shows "fst (for_await env dir ms w) = Inr ()"
proof (induction ms arbitrary: w)
  case Nil
  from assms(1) show ?case by (simp add: return_def)
next
  case (Cons m ms)
  show ?case
  proof (cases "writable m")
    case None
    with Cons.IH show ?thesis by (simp add: for_await_skip)
  next
    case (Some kb)
    obtain k b where "kb = (k, b)" by (cases kb)
    with Some have "writable m = Some (k, b)" by simp
    with Cons.IH assms(2) show ?thesis by (simp add: for_await_write)
  qed
qed

lemma stream_blocks_total:
  assumes "stream_end env = StreamClosed" and "\<And>p. write_ok env p"
    and "connect_ok env" and "stream_msgs env \<noteq> []"
  shows "fst (stream_blocks env dir w) =
         Inr (msg_start (hd (stream_msgs env)), msg_stop (hd (stream_msgs env)))"
proof -
  from assms(4) obtain m ms where msgs: "stream_msgs env = m # ms"
    by (cases "stream_msgs env") auto
  let ?W = "w\<lparr>channel := ms, trace := trace w @ [Recv m, ProgressStart (msg_stop m - msg_start m + 1) 0]\<rparr>"
  have "fst (for_await env dir ms ?W) = Inr ()"
    using assms(1,2) by (rule for_await_total)
  then obtain w5 where "for_await env dir ms ?W = (Inr (), w5)"
    by (cases "for_await env dir ms ?W") simp
  with assms(3) msgs show ?thesis
    by (simp add: stream_blocks_def connectRpc_def snapshotChainStream_def first_def
          and_then_def return_def emit_def Let_def)
qed

lemma zipDir_trace:
  "trace (snd (zipDir env source dest excludes w)) =
   trace w @ [Spawn ''tar'' (zipDir_args source dest excludes)]"
  by (simp add: zipDir_run split: proc_outcome.splits)

lemma archive_spawns_tar:
  "\<exists>evs. trace (snd (archive env dir blocks w)) =
     trace w @ [ClockRead (clock env (clock_reads w)),
                Spawn ''tar''
                  (zipDir_args blocks
                     (path_join dir (''ironfish_snapshot_'' @ show_int (clock env (clock_reads w)) @ ''.tar.gz''))
                     [])] @ evs"
proof -
  let ?t = "clock env (clock_reads w)"
  let ?p = "path_join dir (''ironfish_snapshot_'' @ show_int ?t @ ''.tar.gz'')"
  let ?wa = "w\<lparr>clock_reads := Suc (clock_reads w), trace := trace w @ [ClockRead ?t]\<rparr>"
  let ?k = "\<lambda>_::int option. and_then (stat_size ?p)
              (\<lambda>fileSize. return (?t, ''ironfish_snapshot_'' @ show_int ?t @ ''.tar.gz'', ?p, fileSize))"
  have arch: "archive env dir blocks w = and_then (zipDir env blocks ?p []) ?k ?wa"
    by (simp add: archive_def and_then_def date_now_def Let_def)
  have "adds (\<lambda>e. True) (?k c)" for c
    by (intro adds_and_then adds_any_stat_size adds_return)
  from and_then_extends [where f = ?k and m = "zipDir env blocks ?p []" and w = ?wa, OF this]
  obtain evs where "trace (snd (archive env dir blocks w)) =
      trace (snd (zipDir env blocks ?p [] ?wa)) @ evs"
    unfolding arch by blast
  then have "trace (snd (archive env dir blocks w)) =
      trace w @ [ClockRead ?t, Spawn ''tar'' (zipDir_args blocks ?p [])] @ evs"
    by (simp add: zipDir_trace)
  then show ?thesis by blast
qed

lemma start_published:
  assumes "snapshot env w = (Inr j, w1)" and "bucket_of env \<noteq> []"
    and "curl_outcome env (archive_upload_args env j w1) = Exited c1"
    and "curl_outcome env (manifest_upload_args env j w1) = Exited c2"
    and "write_ok env (manifest_path j)"
  shows "start env w =
         (Inr (),
          w1\<lparr>clock_reads := Suc (Suc (clock_reads w1)),
             files := (files w1)(manifest_path j \<mapsto> bytes_of (JSON_stringify (manifest_of j))),
             trace := trace w1 @
               [ClockRead (clock env (clock_reads w1)),
                Spawn ''curl'' (archive_upload_args env j w1),
                WriteFile (manifest_path j) (bytes_of (JSON_stringify (manifest_of j))),
                ClockRead (clock env (Suc (clock_reads w1))),
                Spawn ''curl'' (manifest_upload_args env j w1)]\<rparr>)"
  unfolding start_after_snapshot [OF assms(1)] publish_exited [OF assms(2,3,5)]
  by (simp only: assms(4) proc_outcome.case)

lemma example_tar_args:
  "zipDir_args ''/tmp/snap/blocks'' ''/tmp/snap/ironfish_snapshot_1650000000000.tar.gz'' [] =
   [''-zcf'', ''/tmp/snap/ironfish_snapshot_1650000000000.tar.gz'', ''-C'', ''/tmp/snap'', ''blocks'']"
  by (simp add: zipDir_args_def dirname_def basename_def is_sep_def Let_def)

text \<open>
  C3, as amended. When the iteration of the stream throws, the run fails at once, before
  \<^verbatim>\<open>tar\<close> is spawned. When the stream just ends, nothing compares the sequence numbers
  seen with \<^verbatim>\<open>stop\<close>: if the directory, the connection and the writes are fine and the
  stream has its first message, the run goes on to spawn \<^verbatim>\<open>tar\<close>, whatever the
  records of the stream were.
\<close>

theorem stream_end_and_archiving:
  "(stream_end env = StreamThrows \<longrightarrow>
      (\<exists>e. fst (start env w) = Inl e) \<and>
      (\<exists>evs. trace (snd (start env w)) = trace w @ evs \<and>
             (\<forall>e \<in> set evs. before_archive e \<and> \<not> is_spawn ''tar'' e))) \<and>
   (stream_end env = StreamClosed \<and> mkdir_ok env \<and>
    (truthy_string (flags_path env) \<or> mkdtemp env \<noteq> None) \<and>
    connect_ok env \<and> stream_msgs env \<noteq> [] \<and> (\<forall>p. write_ok env p) \<longrightarrow>
      (\<exists>evs. trace (snd (start env w)) =
         trace w @
         [Mkdir (path_join (chosen_dir env) ''blocks''), Recv (hd (stream_msgs env)),
          ProgressStart (msg_stop (hd (stream_msgs env)) - msg_start (hd (stream_msgs env)) + 1) 0] @
         concat (map (record_events (path_join (chosen_dir env) ''blocks'')) (tl (stream_msgs env))) @
         [ProgressStop, ClockRead (clock env (clock_reads w)),
          Spawn ''tar''
            (zipDir_args (path_join (chosen_dir env) ''blocks'')
               (path_join (chosen_dir env)
                  (''ironfish_snapshot_'' @ show_int (clock env (clock_reads w)) @ ''.tar.gz''))
               [])] @ evs))"
proof (intro conjI impI)
  assume throws: "stream_end env = StreamThrows"
  have "fails (start env)"
    unfolding start_def by (intro fails_and_then_left fails_snapshot_stream throws)
  then show "\<exists>e. fst (start env w) = Inl e"
    by (simp add: fails_def)
  have "adds before_archive (start env)"
    unfolding start_def
    by (intro adds_and_then_fails adds_snapshot_stream fails_snapshot_stream throws)
  from addsD [OF this, of w]
  show "\<exists>evs. trace (snd (start env w)) = trace w @ evs \<and>
             (\<forall>e \<in> set evs. before_archive e \<and> \<not> is_spawn ''tar'' e)"
    by (auto simp: list_all_iff before_archive_quiet)
next
  let ?dir = "chosen_dir env"
  let ?blocks = "path_join ?dir ''blocks''"
  let ?m = "hd (stream_msgs env)"
  assume "stream_end env = StreamClosed \<and> mkdir_ok env \<and>
    (truthy_string (flags_path env) \<or> mkdtemp env \<noteq> None) \<and>
    connect_ok env \<and> stream_msgs env \<noteq> [] \<and> (\<forall>p. write_ok env p)"
  then have closed: "stream_end env = StreamClosed" and dir: "mkdir_ok env"
    "truthy_string (flags_path env) \<or> mkdtemp env \<noteq> None"
    and conn: "connect_ok env" and msgs: "stream_msgs env \<noteq> []"
    and writes: "\<And>p. write_ok env p"
    by simp_all
  let ?w2 = "w\<lparr>trace := trace w @ [Mkdir ?blocks]\<rparr>"
  have prep: "prepare_dir env w = (Inr (?dir, ?blocks), ?w2)"
    using dir by (rule prepare_dir_total)
  obtain w3 where strm: "stream_blocks env ?blocks ?w2 = (Inr (msg_start ?m, msg_stop ?m), w3)"
    using stream_blocks_total [OF closed writes conn msgs, of ?blocks ?w2]
    by (cases "stream_blocks env ?blocks ?w2") simp
  note S = stream_blocks_ok [OF strm]
  let ?tail = "\<lambda>x. and_then (digest env (fst (snd (snd x))))
      (\<lambda>hex. return \<lparr>exportDir = ?dir, blockExportPath = ?blocks, stop = msg_stop ?m,
         timestamp = fst x, snapshotFileName = fst (snd x),
         snapshotPath = fst (snd (snd x)), fileSize = snd (snd (snd x)), checksum = hex\<rparr>)"
  have snap: "snapshot env w = and_then (archive env ?dir ?blocks) ?tail w3"
  proof -
    have "snapshot env w =
        and_then (stream_blocks env ?blocks)
          (\<lambda>y. and_then (archive env ?dir ?blocks)
             (\<lambda>x. and_then (digest env (fst (snd (snd x))))
                (\<lambda>hex. return \<lparr>exportDir = ?dir, blockExportPath = ?blocks, stop = snd y,
                   timestamp = fst x, snapshotFileName = fst (snd x),
                   snapshotPath = fst (snd (snd x)), fileSize = snd (snd (snd x)),
                   checksum = hex\<rparr>))) ?w2"
      unfolding snapshot_def case_prod_beta
      by (subst and_then_def) (simp add: prep)
    also have "\<dots> = and_then (archive env ?dir ?blocks) ?tail w3"
      by (subst and_then_def) (simp add: strm)
    finally show ?thesis .
  qed
  have "adds (\<lambda>e. True) (?tail x)" for x
    by (intro adds_and_then adds_any_digest adds_return)
  from and_then_extends [where f = ?tail and m = "archive env ?dir ?blocks" and w = w3, OF this]
  obtain evs1 where 1: "trace (snd (snapshot env w)) =
      trace (snd (archive env ?dir ?blocks w3)) @ evs1"
    unfolding snap by blast
  from archive_spawns_tar [of env ?dir ?blocks w3]
  obtain evs2 where 2: "trace (snd (archive env ?dir ?blocks w3)) =
      trace w3 @ [ClockRead (clock env (clock_reads w3)),
        Spawn ''tar'' (zipDir_args ?blocks
          (path_join ?dir (''ironfish_snapshot_'' @ show_int (clock env (clock_reads w3)) @ ''.tar.gz''))
          [])] @ evs2"
    by blast
  from and_then_extends [where f = "publish env" and m = "snapshot env" and w = w,
      OF adds_any_publish]
  obtain evs3 where 3: "trace (snd (start env w)) = trace (snd (snapshot env w)) @ evs3"
    unfolding start_def by blast
  from S have w3: "trace w3 = trace ?w2 @ Recv ?m #
      ProgressStart (msg_stop ?m - msg_start ?m + 1) 0 #
      concat (map (record_events ?blocks) (tl (stream_msgs env))) @ [ProgressStop]"
    and reads: "clock_reads w3 = clock_reads w"
    by simp_all
  have "trace (snd (start env w)) =
         trace w @
         [Mkdir ?blocks, Recv ?m, ProgressStart (msg_stop ?m - msg_start ?m + 1) 0] @
         concat (map (record_events ?blocks) (tl (stream_msgs env))) @
         [ProgressStop, ClockRead (clock env (clock_reads w)),
          Spawn ''tar''
            (zipDir_args ?blocks
               (path_join ?dir (''ironfish_snapshot_'' @ show_int (clock env (clock_reads w)) @ ''.tar.gz''))
               [])] @ (evs2 @ evs1 @ evs3)"
    unfolding 3 1 2 w3 reads by simp
  then show "\<exists>evs. trace (snd (start env w)) =
         trace w @
         [Mkdir ?blocks, Recv ?m, ProgressStart (msg_stop ?m - msg_start ?m + 1) 0] @
         concat (map (record_events ?blocks) (tl (stream_msgs env))) @
         [ProgressStop, ClockRead (clock env (clock_reads w)),
          Spawn ''tar''
            (zipDir_args ?blocks
               (path_join ?dir (''ironfish_snapshot_'' @ show_int (clock env (clock_reads w)) @ ''.tar.gz''))
               [])] @ evs"
    by blast
qed


theorem stream_end_and_archiving_witness:
  "stream_end broken_stream_env = StreamThrows \<and>
   (\<exists>e. fst (start broken_stream_env example_world) = Inl e) \<and>
   stream_end short_stream_env = StreamClosed \<and>
   (\<exists>evs. trace (snd (start short_stream_env example_world)) =
      [Mkdir ''/tmp/snap/blocks'', Recv (bounds_msg 10 12), ProgressStart 3 0,
       Recv (block_msg 10 12 10 [65]), WriteFile ''/tmp/snap/blocks/10'' [65], ProgressUpdate 10,
       ProgressStop, ClockRead 1650000000000,
       Spawn ''tar''
         [''-zcf'', ''/tmp/snap/ironfish_snapshot_1650000000000.tar.gz'', ''-C'', ''/tmp/snap'',
          ''blocks'']] @ evs)"
proof -
  have throws: "stream_end broken_stream_env = StreamThrows"
    by (simp add: broken_stream_env_def)
  have short: "stream_end short_stream_env = StreamClosed" "mkdir_ok short_stream_env"
    "truthy_string (flags_path short_stream_env) \<or> mkdtemp short_stream_env \<noteq> None"
    "connect_ok short_stream_env" "stream_msgs short_stream_env \<noteq> []"
    "\<forall>p. write_ok short_stream_env p"
    by (simp_all add: short_stream_env_def example_env_def)
  have vals: "chosen_dir short_stream_env = ''/tmp/snap''"
    "stream_msgs short_stream_env = [bounds_msg 10 12, block_msg 10 12 10 [65]]"
    "clock short_stream_env (clock_reads example_world) = 1650000000000"
    "trace example_world = []"
    by (simp_all add: chosen_dir_def truthy_string_def short_stream_env_def example_env_def
          example_world_def)
  have evs: "record_events ''/tmp/snap/blocks'' (block_msg 10 12 10 [65]) =
      [Recv (block_msg 10 12 10 [65]), WriteFile ''/tmp/snap/blocks/10'' [65], ProgressUpdate 10]"
    by (simp add: record_events_def writable_def block_msg_def block_file_def text_defs)
  have nums: "show_int 1650000000000 = ''1650000000000''"
    "msg_stop (bounds_msg 10 12) - msg_start (bounds_msg 10 12) + 1 = 3"
    by (simp_all add: text_defs bounds_msg_def)
  from stream_end_and_archiving [of broken_stream_env example_world] throws
  have "\<exists>e. fst (start broken_stream_env example_world) = Inl e"
    by blast
  moreover from stream_end_and_archiving [of short_stream_env example_world] short
  have "\<exists>evs. trace (snd (start short_stream_env example_world)) =
      trace example_world @
      [Mkdir (path_join (chosen_dir short_stream_env) ''blocks''),
       Recv (hd (stream_msgs short_stream_env)),
       ProgressStart (msg_stop (hd (stream_msgs short_stream_env)) -
                      msg_start (hd (stream_msgs short_stream_env)) + 1) 0] @
      concat (map (record_events (path_join (chosen_dir short_stream_env) ''blocks''))
                (tl (stream_msgs short_stream_env))) @
      [ProgressStop, ClockRead (clock short_stream_env (clock_reads example_world)),
       Spawn ''tar''
         (zipDir_args (path_join (chosen_dir short_stream_env) ''blocks'')
            (path_join (chosen_dir short_stream_env)
               (''ironfish_snapshot_'' @
                show_int (clock short_stream_env (clock_reads example_world)) @ ''.tar.gz''))
            [])] @ evs"
    by blast
  then have "\<exists>evs. trace (snd (start short_stream_env example_world)) =
      [Mkdir ''/tmp/snap/blocks'', Recv (bounds_msg 10 12), ProgressStart 3 0,
       Recv (block_msg 10 12 10 [65]), WriteFile ''/tmp/snap/blocks/10'' [65], ProgressUpdate 10,
       ProgressStop, ClockRead 1650000000000,
       Spawn ''tar''
         [''-zcf'', ''/tmp/snap/ironfish_snapshot_1650000000000.tar.gz'', ''-C'', ''/tmp/snap'',
          ''blocks'']] @ evs"
    using example_tar_args by (simp add: vals evs nums path_join_def)
  ultimately show ?thesis
    using throws short(1) by blast
qed

text \<open>
  The claim as stated fails: the bounds are 10 and 12, the stream ends after the block 10,
  and the run spawns \<^verbatim>\<open>tar\<close> and reports success.
\<close>

theorem stream_end_and_archiving_counterexample:
  "stream_end short_stream_env = StreamClosed \<and>
   msg_stop (hd (stream_msgs short_stream_env)) = 12 \<and>
   Some 12 \<notin> set (map msg_seq (tl (stream_msgs short_stream_env))) \<and>
   fst (start short_stream_env example_world) = Inr () \<and>
   Spawn ''tar''
     [''-zcf'', ''/tmp/snap/ironfish_snapshot_1650000000000.tar.gz'', ''-C'', ''/tmp/snap'',
      ''blocks'']
     \<in> set (trace (snd (start short_stream_env example_world)))"
proof -
  let ?w1 = "snd (snapshot short_stream_env example_world)"
  have run: "snapshot short_stream_env example_world = (Inr example_job, ?w1)"
    by (rule pair_fstI)
       (simp add: step_defs text_defs example_defs short_stream_env_def Let_def)
  note S = snapshot_ok [OF run]
  have outside: "write_ok short_stream_env p" "curl_outcome short_stream_env args = Exited (Some 0)"
    for p args
    by (simp_all add: short_stream_env_def example_env_def)
  have bucket: "bucket_of short_stream_env \<noteq> []"
    by (simp add: bucket_of_def truthy_string_def trim_def is_space_def example_env_def
          short_stream_env_def)
  have job: "blockExportPath example_job = ''/tmp/snap/blocks''"
    "snapshotPath example_job = ''/tmp/snap/ironfish_snapshot_1650000000000.tar.gz''"
    by (simp_all add: example_job_def)
  have stream: "stream_end short_stream_env = StreamClosed"
    "msg_stop (hd (stream_msgs short_stream_env)) = 12"
    "Some 12 \<notin> set (map msg_seq (tl (stream_msgs short_stream_env)))"
    by (simp_all add: short_stream_env_def example_env_def bounds_msg_def block_msg_def)
  have tar: "Spawn ''tar'' [''-zcf'', ''/tmp/snap/ironfish_snapshot_1650000000000.tar.gz'',
      ''-C'', ''/tmp/snap'', ''blocks''] \<in> set (trace ?w1)"
    unfolding S(12) job example_tar_args by simp
  from start_published [OF run bucket outside(2) outside(2) outside(1)] tar stream
  show ?thesis by simp
qed

subsection \<open>The events and the files of the loop, record by record\<close>

lemma block_file_inj: "block_file dir k = block_file dir k' \<longleftrightarrow> k = k'"
  by (auto simp: block_file_def path_join_def dest: show_int_inj)

lemma writable_Some_iff:
  "writable m = Some (k, b) \<longleftrightarrow> msg_buffer m = Some b \<and> msg_seq m = Some k \<and> k \<noteq> 0"
  by (auto simp: writable_def split: option.splits)

lemma writable_None_fields:
  "writable m = None \<longleftrightarrow> msg_buffer m = None \<or> msg_seq m = None \<or> msg_seq m = Some 0"
  by (auto simp: writable_def split: option.splits)

lemma WriteFile_in_record_events:
  "WriteFile p b \<in> set (record_events dir m) \<longleftrightarrow> (\<exists>k. writable m = Some (k, b) \<and> p = block_file dir k)"
  by (cases "writable m") (auto simp: record_events_def)

lemma ProgressUpdate_in_record_events:
  "ProgressUpdate k \<in> set (record_events dir m) \<longleftrightarrow> (\<exists>b. writable m = Some (k, b))"
  by (cases "writable m") (auto simp: record_events_def)

text \<open>
  C5, as amended. A record that has no payload, or no sequence number or the sequence number
  0, is taken from the stream and nothing else happens: no file, no error, no progress. In
  a loop that ends well, a file \<^verbatim>\<open>blocks/<k>\<close> with the bytes \<open>b\<close> is written exactly
  when a record carries the payload \<open>b\<close>, of any length, and the sequence number \<open>k\<close>
  other than 0, and the progress is set to \<open>k\<close> exactly for these records.
\<close>

theorem record_written_iff:
  "(msg_buffer m = None \<or> msg_seq m = None \<or> msg_seq m = Some 0 \<longrightarrow>
      for_await env dir (m # rest) w =
      for_await env dir rest (w\<lparr>channel := rest, trace := trace w @ [Recv m]\<rparr>)) \<and>
   (for_await env dir ms w = (Inr (), w') \<longrightarrow>
      (\<exists>evs. trace w' = trace w @ evs \<and>
         (\<forall>k b. WriteFile (path_join dir (show_int k)) b \<in> set evs \<longleftrightarrow>
                  (\<exists>r \<in> set ms. msg_buffer r = Some b \<and> msg_seq r = Some k \<and> k \<noteq> 0)) \<and>
         (\<forall>k. ProgressUpdate k \<in> set evs \<longleftrightarrow>
                  (\<exists>r \<in> set ms. msg_buffer r \<noteq> None \<and> msg_seq r = Some k \<and> k \<noteq> 0))))"
proof (intro conjI impI)
  assume "msg_buffer m = None \<or> msg_seq m = None \<or> msg_seq m = Some 0"
  then have "writable m = None"
    by (simp only: writable_None_fields)
  then show "for_await env dir (m # rest) w =
      for_await env dir rest (w\<lparr>channel := rest, trace := trace w @ [Recv m]\<rparr>)"
    by (rule for_await_skip)
next
  let ?evs = "concat (map (record_events dir) ms)"
  assume "for_await env dir ms w = (Inr (), w')"
  from for_await_ok [OF this] have t: "trace w' = trace w @ ?evs"
    by simp
  have files: "WriteFile (path_join dir (show_int k)) b \<in> set ?evs \<longleftrightarrow>
      (\<exists>r \<in> set ms. msg_buffer r = Some b \<and> msg_seq r = Some k \<and> k \<noteq> 0)" for k b
  proof -
    have "WriteFile (block_file dir k) b \<in> set ?evs \<longleftrightarrow>
        (\<exists>r \<in> set ms. \<exists>k'. writable r = Some (k', b) \<and> block_file dir k = block_file dir k')"
      by (simp add: WriteFile_in_record_events)
    also have "\<dots> \<longleftrightarrow> (\<exists>r \<in> set ms. writable r = Some (k, b))"
      by (auto simp: block_file_inj)
    finally show ?thesis
      by (simp add: writable_Some_iff block_file_def)
  qed
  have progress: "ProgressUpdate k \<in> set ?evs \<longleftrightarrow>
      (\<exists>r \<in> set ms. msg_buffer r \<noteq> None \<and> msg_seq r = Some k \<and> k \<noteq> 0)" for k
    by (auto simp: ProgressUpdate_in_record_events writable_Some_iff)
  from t files progress
  show "\<exists>evs. trace w' = trace w @ evs \<and>
         (\<forall>k b. WriteFile (path_join dir (show_int k)) b \<in> set evs \<longleftrightarrow>
                  (\<exists>r \<in> set ms. msg_buffer r = Some b \<and> msg_seq r = Some k \<and> k \<noteq> 0)) \<and>
         (\<forall>k. ProgressUpdate k \<in> set evs \<longleftrightarrow>
                  (\<exists>r \<in> set ms. msg_buffer r \<noteq> None \<and> msg_seq r = Some k \<and> k \<noteq> 0))"
    by blast
qed

theorem record_written_iff_witness:
  "msg_seq (block_msg 10 12 0 [65]) = Some 0 \<and>
   for_await example_env ''/tmp/snap/blocks'' [block_msg 10 12 0 [65], block_msg 10 12 11 [66]]
     example_world = (Inr (), snd (for_await example_env ''/tmp/snap/blocks''
        [block_msg 10 12 0 [65], block_msg 10 12 11 [66]] example_world)) \<and>
   (\<exists>evs. trace (snd (for_await example_env ''/tmp/snap/blocks''
        [block_msg 10 12 0 [65], block_msg 10 12 11 [66]] example_world)) = trace example_world @ evs \<and>
      WriteFile (path_join ''/tmp/snap/blocks'' (show_int 11)) [66] \<in> set evs \<and>
      WriteFile (path_join ''/tmp/snap/blocks'' (show_int 0)) [65] \<notin> set evs \<and>
      ProgressUpdate 0 \<notin> set evs)"
proof -
  let ?ms = "[block_msg 10 12 0 [65], block_msg 10 12 11 [66]]"
  let ?run = "for_await example_env ''/tmp/snap/blocks'' ?ms example_world"
  have zero: "msg_seq (block_msg 10 12 0 [65]) = Some 0"
    by (simp add: block_msg_def)
  have skip: "?run = for_await example_env ''/tmp/snap/blocks'' [block_msg 10 12 11 [66]]
      (example_world\<lparr>channel := [block_msg 10 12 11 [66]],
         trace := trace example_world @ [Recv (block_msg 10 12 0 [65])]\<rparr>)"
    using record_written_iff [of "block_msg 10 12 0 [65]" example_env "''/tmp/snap/blocks''"
        "[block_msg 10 12 11 [66]]" example_world] zero
    by blast
  have ok: "?run = (Inr (), snd ?run)"
    unfolding skip
    by (rule pair_fstI)
       (simp add: for_await.simps step_defs text_defs example_defs Let_def)
  from record_written_iff [of _ example_env "''/tmp/snap/blocks''" _ example_world ?ms "snd ?run"] ok
  obtain evs where t: "trace (snd ?run) = trace example_world @ evs"
    and files: "\<And>k b. WriteFile (path_join ''/tmp/snap/blocks'' (show_int k)) b \<in> set evs \<longleftrightarrow>
        (\<exists>r \<in> set ?ms. msg_buffer r = Some b \<and> msg_seq r = Some k \<and> k \<noteq> 0)"
    and progress: "\<And>k. ProgressUpdate k \<in> set evs \<longleftrightarrow>
        (\<exists>r \<in> set ?ms. msg_buffer r \<noteq> None \<and> msg_seq r = Some k \<and> k \<noteq> 0)"
    by blast
  have "WriteFile (path_join ''/tmp/snap/blocks'' (show_int 11)) [66] \<in> set evs"
    unfolding files by (simp add: block_msg_def)
  moreover have "WriteFile (path_join ''/tmp/snap/blocks'' (show_int 0)) [65] \<notin> set evs"
    unfolding files by (simp add: block_msg_def)
  moreover have "ProgressUpdate 0 \<notin> set evs"
    unfolding progress by (simp add: block_msg_def)
  ultimately show ?thesis
    using zero ok t by blast
qed

text \<open>
  The claim as stated fails for a payload that is present and empty: an empty buffer is
  truthy, so the record with the sequence number 5 and no bytes gets its file, and the
  progress moves to 5.
\<close>

theorem record_written_iff_counterexample:
  "msg_buffer (block_msg 10 12 5 []) = Some [] \<and>
   fst (for_await example_env ''/tmp/snap/blocks'' [block_msg 10 12 5 []] example_world) = Inr () \<and>
   files (snd (for_await example_env ''/tmp/snap/blocks'' [block_msg 10 12 5 []] example_world))
     ''/tmp/snap/blocks/5'' = Some [] \<and>
   trace (snd (for_await example_env ''/tmp/snap/blocks'' [block_msg 10 12 5 []] example_world)) =
     [Recv (block_msg 10 12 5 []), WriteFile ''/tmp/snap/blocks/5'' [], ProgressUpdate 5]"
  by (simp add: for_await.simps step_defs text_defs example_defs Let_def)

subsection \<open>The files of the block directory after a run\<close>

lemma map_of_rev_last:
  "map_of (rev xs) k =
     (if map snd (filter (\<lambda>kb. fst kb = k) xs) = [] then None
      else Some (last (map snd (filter (\<lambda>kb. fst kb = k) xs))))"
  by (induction xs rule: rev_induct) auto

lemma map_of_map_keys_inj:
  assumes "\<And>a b. f a = f b \<Longrightarrow> a = b"
  shows "map_of (map (\<lambda>(k, b). (f k, b)) xs) (f k) = map_of xs k"
  using assms by (induction xs) auto

lemma map_of_block_writes:
  "map_of (rev (block_writes dir ms)) (block_file dir k) =
     (if payloads_for k ms = [] then None else Some (last (payloads_for k ms)))"
proof -
  have "map_of (rev (block_writes dir ms)) (block_file dir k) =
        map_of (map (\<lambda>(k, b). (block_file dir k, b)) (rev (writes ms))) (block_file dir k)"
    by (simp add: block_writes_def rev_map)
  also have "\<dots> = map_of (rev (writes ms)) k"
    by (rule map_of_map_keys_inj) (simp add: block_file_inj)
  finally show ?thesis
    by (simp add: map_of_rev_last payloads_for_def)
qed

lemma publish_keeps_files:
  assumes "publish env j w = (r, w')" and "p \<noteq> manifest_path j"
  shows "files w' p = files w p"
proof (cases "bucket_of env = []")
  case True
  with assms show ?thesis by (simp add: publish_no_bucket)
next
  case bucket: False
  show ?thesis
  proof (cases "curl_outcome env (archive_upload_args env j w)")
    case SpawnFailed
    from assms(1) show ?thesis
      unfolding publish_spawn_failed [OF bucket SpawnFailed] by auto
  next
    case (Exited code)
    show ?thesis
    proof (cases "write_ok env (manifest_path j)")
      case True
      from assms show ?thesis
        unfolding publish_exited [OF bucket Exited True] by auto
    next
      case False
      from assms(1) show ?thesis
        unfolding publish_write_failed [OF bucket Exited False] by auto
    qed
  qed
qed

lemma start_okE:
  assumes "start env w = (Inr u, w')"
  obtains j w1 where "snapshot env w = (Inr j, w1)" and "publish env j w1 = (Inr u, w')"
  using assms unfolding start_def by (rule and_then_okE)

lemma start_block_dir:
  assumes "start env w = (Inr (), w')"
  shows "files w' (path_join (path_join (chosen_dir env) ''blocks'') n) =
         (files w ++ map_of (rev (block_writes (path_join (chosen_dir env) ''blocks'')
                              (tl (stream_msgs env)))))
           (path_join (path_join (chosen_dir env) ''blocks'') n)"
proof -
  from assms obtain j w1 where snap: "snapshot env w = (Inr j, w1)"
    and pub: "publish env j w1 = (Inr (), w')"
    by (rule start_okE)
  note S = snapshot_ok [OF snap]
  let ?p = "path_join (path_join (chosen_dir env) ''blocks'') n"
  have "?p \<noteq> manifest_path j"
    unfolding manifest_path_def S(1) by (rule block_path_neq_manifest)
  with pub have "files w' ?p = files w1 ?p"
    by (rule publish_keeps_files)
  moreover have "?p \<noteq> snapshotPath j"
    unfolding S(9) S(8) S(1) by (rule block_path_neq_snapshot)
  ultimately show ?thesis
    unfolding S(10) S(2) S(1) by (simp split: option.splits)
qed

lemma show_int_chars: "set (show_int i) \<subseteq> set ''-0123456789''"
proof -
  have digits: "set (show_nat n) \<subseteq> set ''-0123456789''" for n
  proof -
    have "set ''0123456789'' \<subseteq> set ''-0123456789''"
      by (simp add: subset_insertI)
    with show_nat_digits [of n] show ?thesis
      by (rule subset_trans)
  qed
  show ?thesis
  proof (cases "i < 0")
    case True
    with digits [of "nat (- i)"] show ?thesis
      by (simp add: show_int_def)
  next
    case False
    with digits [of "nat i"] show ?thesis
      by (simp add: show_int_def)
  qed
qed

lemma stray_block_run:
  "start stray_block_env example_world = (Inr (), snd (start stray_block_env example_world))"
proof -
  let ?w1 = "snd (snapshot stray_block_env example_world)"
  have run: "snapshot stray_block_env example_world = (Inr example_job, ?w1)"
    by (rule pair_fstI)
       (simp add: step_defs text_defs example_defs stray_block_env_def Let_def)
  have outside: "write_ok stray_block_env p" "curl_outcome stray_block_env args = Exited (Some 0)"
    for p args
    by (simp_all add: stray_block_env_def example_env_def)
  have bucket: "bucket_of stray_block_env \<noteq> []"
    by (simp add: bucket_of_def truthy_string_def trim_def is_space_def example_env_def
          stray_block_env_def)
  note pub = start_published [OF run bucket outside(2) outside(2) outside(1)]
  have "fst (start stray_block_env example_world) = Inr ()"
    unfolding pub by (simp only: fst_conv)
  then show ?thesis by (rule pair_fstI)
qed

lemma stray_block_facts:
  "chosen_dir stray_block_env = ''/tmp/snap''"
  "payloads_for 13 (tl (stream_msgs stray_block_env)) = [[68]]"
  "files example_world p = None"
  by (simp_all add: chosen_dir_def truthy_string_def stray_block_env_def example_env_def
        example_world_def payloads_for_def writes_def List.map_filter_simps writable_def
        block_msg_def)

text \<open>
  C4, as amended. After a successful run, for every number \<open>k\<close> the file \<^verbatim>\<open>blocks/<k>\<close>
  holds the payload of the last delivered record that has a payload and the sequence number
  \<open>k\<close> other than 0, whether or not \<open>k\<close> lies within the bounds, and it is as it was
  before the run when there is no such record; and a file of the block directory whose name
  is not a number is as it was before the run.
\<close>

theorem block_dir_after_run:
  assumes "start env w = (Inr (), w')"
  shows "(\<forall>k. files w' (block_file (path_join (chosen_dir env) ''blocks'') k) =
              (if payloads_for k (tl (stream_msgs env)) = []
               then files w (block_file (path_join (chosen_dir env) ''blocks'') k)
               else Some (last (payloads_for k (tl (stream_msgs env)))))) \<and>
         (\<forall>n. (\<forall>k. n \<noteq> show_int k) \<longrightarrow>
              files w' (path_join (path_join (chosen_dir env) ''blocks'') n) =
              files w (path_join (path_join (chosen_dir env) ''blocks'') n))"
proof (intro conjI allI impI)
  fix k
  show "files w' (block_file (path_join (chosen_dir env) ''blocks'') k) =
        (if payloads_for k (tl (stream_msgs env)) = []
         then files w (block_file (path_join (chosen_dir env) ''blocks'') k)
         else Some (last (payloads_for k (tl (stream_msgs env)))))"
    using start_block_dir [OF assms, of "show_int k"]
    by (simp add: block_file_def [symmetric] map_add_def map_of_block_writes)
next
  fix n
  assume other: "\<forall>k. n \<noteq> show_int k"
  have "map_of (rev (block_writes (path_join (chosen_dir env) ''blocks'') (tl (stream_msgs env))))
          (path_join (path_join (chosen_dir env) ''blocks'') n) = None"
    by (rule map_of_block_writes_other) (use other in \<open>simp add: block_file_def path_join_def\<close>)
  with start_block_dir [OF assms, of n]
  show "files w' (path_join (path_join (chosen_dir env) ''blocks'') n) =
        files w (path_join (path_join (chosen_dir env) ''blocks'') n)"
    by (simp add: map_add_def)
qed


theorem block_dir_after_run_witness:
  "start stray_block_env example_world = (Inr (), snd (start stray_block_env example_world)) \<and>
   files (snd (start stray_block_env example_world)) (block_file ''/tmp/snap/blocks'' 13) =
     Some [68] \<and>
   files (snd (start stray_block_env example_world)) (path_join ''/tmp/snap/blocks'' ''README'') =
     None"
proof -
  have name: "\<forall>k. ''README'' \<noteq> show_int k"
  proof (intro allI notI)
    fix k
    assume eq: "''README'' = show_int k"
    have "CHR ''R'' \<in> set ''README''" by simp
    then have "CHR ''R'' \<in> set (show_int k)" unfolding eq .
    with show_int_chars [of k] have "CHR ''R'' \<in> set ''-0123456789''"
      by (rule subsetD)
    then show False by simp
  qed
  have dir: "path_join (chosen_dir stray_block_env) ''blocks'' = ''/tmp/snap/blocks''"
    by (simp add: stray_block_facts path_join_def)
  note after = block_dir_after_run [OF stray_block_run, unfolded dir]
  from after have "files (snd (start stray_block_env example_world))
      (block_file ''/tmp/snap/blocks'' 13) =
      (if payloads_for 13 (tl (stream_msgs stray_block_env)) = []
       then files example_world (block_file ''/tmp/snap/blocks'' 13)
       else Some (last (payloads_for 13 (tl (stream_msgs stray_block_env)))))"
    by blast
  then have "files (snd (start stray_block_env example_world))
      (block_file ''/tmp/snap/blocks'' 13) = Some [68]"
    by (simp only: stray_block_facts) simp
  moreover from after name have "files (snd (start stray_block_env example_world))
      (path_join ''/tmp/snap/blocks'' ''README'') =
      files example_world (path_join ''/tmp/snap/blocks'' ''README'')"
    by blast
  then have "files (snd (start stray_block_env example_world))
      (path_join ''/tmp/snap/blocks'' ''README'') = None"
    by (simp only: stray_block_facts)
  ultimately show ?thesis
    using stray_block_run by blast
qed


text \<open>
  The claim as stated fails: the bounds are 10 and 12, a record with the sequence number 13
  is delivered, and after the successful run the file \<^verbatim>\<open>blocks/13\<close> holds its payload.
\<close>

theorem block_dir_after_run_counterexample:
  "msg_start (hd (stream_msgs stray_block_env)) = 10 \<and>
   msg_stop (hd (stream_msgs stray_block_env)) = 12 \<and>
   block_msg 10 12 13 [68] \<in> set (tl (stream_msgs stray_block_env)) \<and>
   fst (start stray_block_env example_world) = Inr () \<and>
   files (snd (start stray_block_env example_world)) ''/tmp/snap/blocks/13'' = Some [68]"
proof -
  have dir: "path_join (chosen_dir stray_block_env) ''blocks'' = ''/tmp/snap/blocks''"
    by (simp add: stray_block_facts path_join_def)
  have name: "path_join ''/tmp/snap/blocks'' (show_int 13) = ''/tmp/snap/blocks/13''"
    by (simp add: path_join_def text_defs)
  have "map_of (rev (block_writes ''/tmp/snap/blocks'' (tl (stream_msgs stray_block_env))))
          (block_file ''/tmp/snap/blocks'' 13) = Some [68]"
    by (simp add: map_of_block_writes stray_block_facts)
  then have written: "files (snd (start stray_block_env example_world)) ''/tmp/snap/blocks/13'' =
      Some [68]"
    using start_block_dir [OF stray_block_run, of "show_int 13", unfolded dir name]
    by (simp add: block_file_def name map_add_def)
  have msgs: "msg_start (hd (stream_msgs stray_block_env)) = 10"
    "msg_stop (hd (stream_msgs stray_block_env)) = 12"
    "block_msg 10 12 13 [68] \<in> set (tl (stream_msgs stray_block_env))"
    by (simp_all add: stray_block_env_def example_env_def bounds_msg_def)
  have "fst (start stray_block_env example_world) = fst (Inr () :: error + unit, snd (start stray_block_env example_world))"
    using stray_block_run by (rule arg_cong)
  then have "fst (start stray_block_env example_world) = Inr ()"
    by (simp only: fst_conv)
  with written msgs show ?thesis
    by blast
qed

subsection \<open>The manifest\<close>

lemma hex_digit_range: "d < 16 \<Longrightarrow> hex_digit d \<in> set ''0123456789abcdef''"
  unfolding hex_digit_def by (rule nth_mem) simp

lemma to_hex_lowercase: "set (to_hex bs) \<subseteq> set ''0123456789abcdef''"
proof -
  have "set (hex_byte b) \<subseteq> set ''0123456789abcdef''" for b
  proof -
    have "unat b < 2 ^ LENGTH(8)"
      by (rule unsigned_less)
    then have "unat b < 256"
      by simp
    then have "unat b div 16 < 16" and "unat b mod 16 < 16"
      by simp_all
    then have "hex_digit (unat b div 16) \<in> set ''0123456789abcdef''"
      and "hex_digit (unat b mod 16) \<in> set ''0123456789abcdef''"
      by (simp_all only: hex_digit_range)
    then show ?thesis
      by (simp only: hex_byte_def list.set insert_subset empty_subsetI simp_thms)
  qed
  then show ?thesis
    unfolding to_hex_def by (induction bs) simp_all
qed

lemma snapshot_name_nonempty: "''ironfish_snapshot_'' @ show_int t @ ''.tar.gz'' \<noteq> []"
  by simp

lemma publish_writes_manifest:
  assumes "publish env j w = (r, w')"
  shows "\<exists>evs. trace w' = trace w @ evs \<and>
           (\<forall>p content. WriteFile p content \<in> set evs \<longrightarrow>
              p = manifest_path j \<and> content = bytes_of (JSON_stringify (manifest_of j)))"
proof (cases "bucket_of env = []")
  case True
  with assms show ?thesis by (simp add: publish_no_bucket)
next
  case bucket: False
  show ?thesis
  proof (cases "curl_outcome env (archive_upload_args env j w)")
    case SpawnFailed
    from assms show ?thesis
      unfolding publish_spawn_failed [OF bucket SpawnFailed] by auto
  next
    case (Exited code)
    show ?thesis
    proof (cases "write_ok env (manifest_path j)")
      case True
      from assms show ?thesis
        unfolding publish_exited [OF bucket Exited True] by auto
    next
      case False
      from assms show ?thesis
        unfolding publish_write_failed [OF bucket Exited False] by auto
    qed
  qed
qed

text \<open>
  C7. The manifest of a run that reaches the uploads: its \<^verbatim>\<open>block_height\<close> is the
  \<^verbatim>\<open>stop\<close> of the first message, its \<^verbatim>\<open>file_size\<close> is the length of the archive
  file, its \<^verbatim>\<open>checksum\<close> is the hash of the content of the archive file in lowercase
  hexadecimal digits, and its \<^verbatim>\<open>file_name\<close> is the base name of the archive file.
  Every file that the uploads write is \<^verbatim>\<open>manifest.json\<close> with the text of this manifest.
\<close>

theorem manifest_fields:
  assumes "snapshot env w = (Inr j, w1)"
  shows "block_height (manifest_of j) = msg_stop (hd (stream_msgs env)) \<and>
         (\<exists>content. files w1 (snapshotPath j) = Some content \<and>
            file_size (manifest_of j) = int (length content) \<and>
            manifest_checksum (manifest_of j) = to_hex (sha256 env content)) \<and>
         set (manifest_checksum (manifest_of j)) \<subseteq> set ''0123456789abcdef'' \<and>
         file_name (manifest_of j) = basename (snapshotPath j) \<and>
         (\<forall>r w'. publish env j w1 = (r, w') \<longrightarrow>
            (\<exists>evs. trace w' = trace w1 @ evs \<and>
               (\<forall>p content. WriteFile p content \<in> set evs \<longrightarrow>
                  p = manifest_path j \<and> content = bytes_of (JSON_stringify (manifest_of j)))))"
proof -
  note S = snapshot_ok [OF assms]
  from S(11) obtain content where content: "files w1 (snapshotPath j) = Some content"
    "fileSize j = int (length content)" "checksum j = to_hex (sha256 env content)"
    by blast
  have height: "block_height (manifest_of j) = msg_stop (hd (stream_msgs env))"
    using S(6) by (simp add: manifest_of_def)
  have archive: "\<exists>content. files w1 (snapshotPath j) = Some content \<and>
      file_size (manifest_of j) = int (length content) \<and>
      manifest_checksum (manifest_of j) = to_hex (sha256 env content)"
    using content by (simp add: manifest_of_def)
  have lower: "set (manifest_checksum (manifest_of j)) \<subseteq> set ''0123456789abcdef''"
    using content(3) to_hex_lowercase [of "sha256 env content"] by (simp add: manifest_of_def)
  have "basename (snapshotPath j) = snapshotFileName j"
    unfolding S(9) S(8)
    by (rule basename_path_join) (rule snapshot_name_nonempty, rule snapshot_name_no_sep)
  then have name: "file_name (manifest_of j) = basename (snapshotPath j)"
    by (simp add: manifest_of_def)
  from height archive lower name show ?thesis
    using publish_writes_manifest [of env j w1] by blast
qed

theorem manifest_fields_witness:
  "snapshot example_env example_world = (Inr example_job, snd (snapshot example_env example_world)) \<and>
   block_height (manifest_of example_job) = 12 \<and>
   file_size (manifest_of example_job) = 3 \<and>
   file_name (manifest_of example_job) = basename (snapshotPath example_job) \<and>
   files (snd (snapshot example_env example_world)) (snapshotPath example_job) = Some [31, 139, 8]"
proof -
  note M = manifest_fields [OF example_snapshot]
  from M obtain content where
    content: "files (snd (snapshot example_env example_world)) (snapshotPath example_job) = Some content"
      "file_size (manifest_of example_job) = int (length content)"
    by blast
  have size: "file_size (manifest_of example_job) = 3"
    by (simp add: manifest_of_def example_job_def)
  have tar: "tar_archive example_env = Some [31, 139, 8]"
    by (simp add: example_env_def)
  have "files (snd (snapshot example_env example_world)) (snapshotPath example_job) = Some [31, 139, 8]"
    unfolding snapshot_ok(10) [OF example_snapshot] tar by simp
  moreover from M have "block_height (manifest_of example_job) = msg_stop (hd (stream_msgs example_env))"
    and "file_name (manifest_of example_job) = basename (snapshotPath example_job)"
    by blast+
  moreover have "msg_stop (hd (stream_msgs example_env)) = 12"
    by (simp add: example_env_def bounds_msg_def)
  ultimately show ?thesis
    using example_snapshot size by simp
qed


lemma no_ClockRead_in_record_events: "ClockRead t \<notin> set (record_events dir m)"
  by (cases "writable m") (auto simp: record_events_def)

lemma publish_ok_manifest:
  assumes "publish env j w = (Inr (), w')" and "bucket_of env \<noteq> []"
  shows "files w' (manifest_path j) = Some (bytes_of (JSON_stringify (manifest_of j)))"
proof (cases "curl_outcome env (archive_upload_args env j w)")
  case SpawnFailed
  from assms(1) show ?thesis
    unfolding publish_spawn_failed [OF assms(2) SpawnFailed] by simp
next
  case (Exited code)
  show ?thesis
  proof (cases "write_ok env (manifest_path j)")
    case True
    from assms(1) show ?thesis
      unfolding publish_exited [OF assms(2) Exited True] by auto
  next
    case False
    from assms(1) show ?thesis
      unfolding publish_write_failed [OF assms(2) Exited False] by simp
  qed
qed

text \<open>
  C10. The \<^verbatim>\<open>timestamp\<close> of the manifest is the number in the name of the archive
  file: both are the one reading of the clock that the run takes after the progress bar has
  stopped and before \<^verbatim>\<open>tar\<close> is spawned. A successful run with a bucket leaves this
  manifest in \<^verbatim>\<open>manifest.json\<close>.
\<close>

theorem manifest_timestamp_in_archive_name:
  assumes "snapshot env w = (Inr j, w1)"
  shows "manifest_timestamp (manifest_of j) = clock env (clock_reads w) \<and>
         file_name (manifest_of j) =
           ''ironfish_snapshot_'' @ show_int (manifest_timestamp (manifest_of j)) @ ''.tar.gz'' \<and>
         snapshotPath j = path_join (exportDir j) (file_name (manifest_of j)) \<and>
         (\<exists>before after.
            trace w1 = trace w @ before @
              [ProgressStop, ClockRead (manifest_timestamp (manifest_of j)),
               Spawn ''tar'' (zipDir_args (blockExportPath j) (snapshotPath j) [])] @ after \<and>
            (\<forall>t. ClockRead t \<notin> set before \<and> ClockRead t \<notin> set after)) \<and>
         (\<forall>w'. bucket_of env \<noteq> [] \<and> publish env j w1 = (Inr (), w') \<longrightarrow>
            files w' (manifest_path j) = Some (bytes_of (JSON_stringify (manifest_of j))))"
proof -
  note S = snapshot_ok [OF assms]
  let ?before = "[Mkdir (blockExportPath j), Recv (hd (stream_msgs env)),
      ProgressStart (msg_stop (hd (stream_msgs env)) - msg_start (hd (stream_msgs env)) + 1) 0] @
      concat (map (record_events (blockExportPath j)) (tl (stream_msgs env)))"
  let ?after = "[Stat (snapshotPath j), OpenRead (snapshotPath j)]"
  have time: "manifest_timestamp (manifest_of j) = clock env (clock_reads w)"
    using S(7) by (simp add: manifest_of_def)
  have name: "file_name (manifest_of j) =
      ''ironfish_snapshot_'' @ show_int (manifest_timestamp (manifest_of j)) @ ''.tar.gz''"
    using S(8) by (simp add: manifest_of_def)
  have path: "snapshotPath j = path_join (exportDir j) (file_name (manifest_of j))"
    using S(9) by (simp add: manifest_of_def)
  have "trace w1 = trace w @ ?before @
      [ProgressStop, ClockRead (manifest_timestamp (manifest_of j)),
       Spawn ''tar'' (zipDir_args (blockExportPath j) (snapshotPath j) [])] @ ?after"
    using S(12) by (simp add: manifest_of_def)
  moreover have "\<forall>t. ClockRead t \<notin> set ?before \<and> ClockRead t \<notin> set ?after"
    by (simp add: no_ClockRead_in_record_events)
  ultimately have order: "\<exists>before after.
      trace w1 = trace w @ before @
        [ProgressStop, ClockRead (manifest_timestamp (manifest_of j)),
         Spawn ''tar'' (zipDir_args (blockExportPath j) (snapshotPath j) [])] @ after \<and>
      (\<forall>t. ClockRead t \<notin> set before \<and> ClockRead t \<notin> set after)"
    by blast
  from time name path order show ?thesis
    using publish_ok_manifest [of env j w1] by blast
qed

theorem manifest_timestamp_in_archive_name_witness:
  "snapshot example_env example_world = (Inr example_job, snd (snapshot example_env example_world)) \<and>
   manifest_timestamp (manifest_of example_job) = 1650000000000 \<and>
   file_name (manifest_of example_job) = ''ironfish_snapshot_1650000000000.tar.gz'' \<and>
   snapshotPath example_job = path_join (exportDir example_job) (file_name (manifest_of example_job))"
proof -
  note M = manifest_timestamp_in_archive_name [OF example_snapshot]
  have "clock example_env (clock_reads example_world) = 1650000000000"
    by (simp add: example_env_def example_world_def)
  with M have time: "manifest_timestamp (manifest_of example_job) = 1650000000000"
    by simp
  from M have "file_name (manifest_of example_job) =
      ''ironfish_snapshot_'' @ show_int (manifest_timestamp (manifest_of example_job)) @ ''.tar.gz''"
    by blast
  then have "file_name (manifest_of example_job) = ''ironfish_snapshot_1650000000000.tar.gz''"
    unfolding time by (simp add: text_defs)
  moreover from M
  have "snapshotPath example_job = path_join (exportDir example_job) (file_name (manifest_of example_job))"
    by blast
  ultimately show ?thesis
    using example_snapshot time by blast
qed

subsection \<open>The upload\<close>

text \<open>
  C8. \<^verbatim>\<open>uploadToBucket\<close> reads the clock, spawns \<^verbatim>\<open>curl\<close> with the command
  line below and settles as \<^verbatim>\<open>curl\<close> does. Read as \<^verbatim>\<open>curl\<close> reads it, the command
  line is a \<^verbatim>\<open>PUT\<close> of the file to \<^verbatim>\<open>https://<host>/<basename>\<close> with the four
  header lines \<^verbatim>\<open>Host\<close>, \<^verbatim>\<open>Date\<close>, \<^verbatim>\<open>Content-Type\<close> and \<^verbatim>\<open>x-amz-acl\<close>.
\<close>

theorem upload_request:
  "uploadToBucket env dest host contentType w =
     (case curl_outcome env
             (uploadToBucket_args (toISOString env (clock env (clock_reads w))) dest host contentType) of
        SpawnFailed \<Rightarrow> Inl (SpawnError ''curl'')
      | Exited code \<Rightarrow> Inr code,
      w\<lparr>clock_reads := Suc (clock_reads w),
        trace := trace w @
          [ClockRead (clock env (clock_reads w)),
           Spawn ''curl''
             (uploadToBucket_args (toISOString env (clock env (clock_reads w))) dest host contentType)]\<rparr>) \<and>
   uploadToBucket_args date dest host contentType =
     [''-X'', ''PUT'', ''-T'', dest,
      ''-H'', ''Host: '' @ host,
      ''-H'', ''Date: '' @ date,
      ''-H'', ''Content-Type: '' @ contentType,
      ''-H'', ''x-amz-acl: bucket-owner-full-control'',
      ''https://'' @ host @ ''/'' @ basename dest] \<and>
   curl_request (uploadToBucket_args date dest host contentType) no_request =
     \<lparr>req_method = Some ''PUT'', req_upload = Some dest,
      req_headers = [''Host: '' @ host, ''Date: '' @ date, ''Content-Type: '' @ contentType,
                     ''x-amz-acl: bucket-owner-full-control''],
      req_url = Some (''https://'' @ host @ ''/'' @ basename dest)\<rparr>"
proof (intro conjI)
  show "uploadToBucket env dest host contentType w =
     (case curl_outcome env
             (uploadToBucket_args (toISOString env (clock env (clock_reads w))) dest host contentType) of
        SpawnFailed \<Rightarrow> Inl (SpawnError ''curl'')
      | Exited code \<Rightarrow> Inr code,
      w\<lparr>clock_reads := Suc (clock_reads w),
        trace := trace w @
          [ClockRead (clock env (clock_reads w)),
           Spawn ''curl''
             (uploadToBucket_args (toISOString env (clock env (clock_reads w))) dest host contentType)]\<rparr>)"
    by (rule uploadToBucket_run)
  show args: "uploadToBucket_args date dest host contentType =
     [''-X'', ''PUT'', ''-T'', dest,
      ''-H'', ''Host: '' @ host,
      ''-H'', ''Date: '' @ date,
      ''-H'', ''Content-Type: '' @ contentType,
      ''-H'', ''x-amz-acl: bucket-owner-full-control'',
      ''https://'' @ host @ ''/'' @ basename dest]"
    by (simp add: uploadToBucket_args_def Let_def)
  show "curl_request (uploadToBucket_args date dest host contentType) no_request =
     \<lparr>req_method = Some ''PUT'', req_upload = Some dest,
      req_headers = [''Host: '' @ host, ''Date: '' @ date, ''Content-Type: '' @ contentType,
                     ''x-amz-acl: bucket-owner-full-control''],
      req_url = Some (''https://'' @ host @ ''/'' @ basename dest)\<rparr>"
    unfolding args by (simp add: no_request_def)
qed

subsection \<open>The stream\<close>

lemma map_filter_append:
  "List.map_filter f (xs @ ys) = List.map_filter f xs @ List.map_filter f ys"
  by (simp add: List.map_filter_def)

lemma received_record_events: "List.map_filter received (record_events dir m) = [m]"
  by (cases "writable m") (auto simp: record_events_def List.map_filter_simps)

lemma received_loop: "List.map_filter received (concat (map (record_events dir) ms)) = ms"
  by (induction ms) (simp_all add: List.map_filter_simps map_filter_append received_record_events)

text \<open>
  C6. On the model of the stream taken from the spec: \<^verbatim>\<open>first\<close> takes one message
  and leaves the others in the channel; in a run that reaches the uploads the messages taken
  from the stream are those of the stream, each once and in order: the first before the
  progress bar starts, for the bounds, and all the others by the loop; then the channel is
  empty.
\<close>

theorem stream_messages_taken_once:
  "(channel w = m # ms \<longrightarrow>
      first env w = (Inr m, w\<lparr>channel := ms, trace := trace w @ [Recv m]\<rparr>)) \<and>
   (snapshot env w = (Inr j, w1) \<longrightarrow>
      stream_msgs env \<noteq> [] \<and> stop j = msg_stop (hd (stream_msgs env)) \<and> channel w1 = [] \<and>
      (\<exists>evs. trace w1 = trace w @ evs \<and>
         List.map_filter received evs = stream_msgs env \<and>
         evs = [Mkdir (blockExportPath j), Recv (hd (stream_msgs env)),
                ProgressStart (msg_stop (hd (stream_msgs env)) - msg_start (hd (stream_msgs env)) + 1) 0] @
               concat (map (record_events (blockExportPath j)) (tl (stream_msgs env))) @
               [ProgressStop, ClockRead (timestamp j),
                Spawn ''tar'' (zipDir_args (blockExportPath j) (snapshotPath j) []),
                Stat (snapshotPath j), OpenRead (snapshotPath j)]))"
proof (intro conjI impI)
  assume "channel w = m # ms"
  then show "first env w = (Inr m, w\<lparr>channel := ms, trace := trace w @ [Recv m]\<rparr>)"
    by (simp add: first_def)
next
  assume snap: "snapshot env w = (Inr j, w1)"
  note S = snapshot_ok [OF snap]
  show "stream_msgs env \<noteq> []" by (rule S)
  show "stop j = msg_stop (hd (stream_msgs env))" by (rule S)
  show "channel w1 = []" by (rule S)
  let ?evs = "[Mkdir (blockExportPath j), Recv (hd (stream_msgs env)),
      ProgressStart (msg_stop (hd (stream_msgs env)) - msg_start (hd (stream_msgs env)) + 1) 0] @
      concat (map (record_events (blockExportPath j)) (tl (stream_msgs env))) @
      [ProgressStop, ClockRead (timestamp j),
       Spawn ''tar'' (zipDir_args (blockExportPath j) (snapshotPath j) []),
       Stat (snapshotPath j), OpenRead (snapshotPath j)]"
  have "List.map_filter received ?evs = hd (stream_msgs env) # tl (stream_msgs env)"
    by (simp add: List.map_filter_simps map_filter_append received_loop)
  then have "List.map_filter received ?evs = stream_msgs env"
    using S(3) by simp
  with S(12) show "\<exists>evs. trace w1 = trace w @ evs \<and>
         List.map_filter received evs = stream_msgs env \<and>
         evs = ?evs"
    by blast
qed

theorem stream_messages_taken_once_witness:
  "channel (example_world\<lparr>channel := stream_msgs example_env\<rparr>) =
     bounds_msg 10 12 # [block_msg 10 12 10 [65], block_msg 10 12 11 [66], block_msg 10 12 12 [67]] \<and>
   fst (first example_env (example_world\<lparr>channel := stream_msgs example_env\<rparr>)) =
     Inr (bounds_msg 10 12) \<and>
   snapshot example_env example_world = (Inr example_job, snd (snapshot example_env example_world)) \<and>
   stop example_job = msg_stop (hd (stream_msgs example_env)) \<and>
   channel (snd (snapshot example_env example_world)) = []"
proof -
  have ch: "channel (example_world\<lparr>channel := stream_msgs example_env\<rparr>) =
     bounds_msg 10 12 # [block_msg 10 12 10 [65], block_msg 10 12 11 [66], block_msg 10 12 12 [67]]"
    by (simp add: example_env_def)
  from stream_messages_taken_once
    [of "example_world\<lparr>channel := stream_msgs example_env\<rparr>" "bounds_msg 10 12"
        "[block_msg 10 12 10 [65], block_msg 10 12 11 [66], block_msg 10 12 12 [67]]" example_env]
    ch
  have "first example_env (example_world\<lparr>channel := stream_msgs example_env\<rparr>) =
      (Inr (bounds_msg 10 12),
       example_world\<lparr>channel := stream_msgs example_env,
         channel := [block_msg 10 12 10 [65], block_msg 10 12 11 [66], block_msg 10 12 12 [67]],
         trace := trace (example_world\<lparr>channel := stream_msgs example_env\<rparr>) @
                  [Recv (bounds_msg 10 12)]\<rparr>)"
    by blast
  then have one: "fst (first example_env (example_world\<lparr>channel := stream_msgs example_env\<rparr>)) =
     Inr (bounds_msg 10 12)"
    by (simp only: fst_conv)
  from stream_messages_taken_once [of example_world _ _ example_env example_job
      "snd (snapshot example_env example_world)"] example_snapshot
  have "stop example_job = msg_stop (hd (stream_msgs example_env))"
    and "channel (snd (snapshot example_env example_world)) = []"
    by blast+
  with ch one example_snapshot show ?thesis
    by blast
qed

end
